theory Spec2Isabelle
  imports Main "HOL-Library.Word" "HOL-Library.AList" "HOL-Library.Multiset"
    "HOL-Library.Sublist"
begin

text \<open>
  A float64 is only ever copied by the code modelled here, never computed with; it is
  carried as its 64-bit pattern, so that the zero value is the word 0.
\<close>

type_synonym float64 = "64 word"

section \<open>Gateway route resources (package mesh_proto)\<close>

text \<open>
  The generated protobuf types of a gateway route, as far as the route generator reads
  them. The getters of the source are nil-safe; an absent message is \<open>None\<close> here and the
  getter functions below give the zero value for it.
\<close>

datatype PathMatchType = Path_EXACT | Path_PREFIX | Path_REGEX

record MatchPath =
  pathMatch :: PathMatchType
  pathValue :: string

datatype MatchMethod =
    Match_NONE
  | Match_CONNECT
  | Match_DELETE
  | Match_GET
  | Match_HEAD
  | Match_OPTIONS
  | Match_PATCH
  | Match_POST
  | Match_PUT
  | Match_TRACE

datatype HeaderMatchType = Header_EXACT | Header_REGEX

record MatchHeader =
  headerMatch :: HeaderMatchType
  headerName :: string
  headerValue :: string

datatype QueryMatchType = Query_EXACT | Query_REGEX

record MatchQuery =
  queryMatch :: QueryMatchType
  queryName :: string
  queryValue :: string

record HttpMatch =
  GetPath :: "MatchPath option"
  GetMethod :: MatchMethod
  GetHeaders :: "MatchHeader list"
  GetQueryParameters :: "MatchQuery list"

record Backend =
  GetWeight :: "32 word"
  GetDestination :: "string \<Rightarrow> string option"

record FilterRedirect =
  GetScheme :: string
  GetHostname :: string
  GetPort :: "32 word"
  GetStatusCode :: "32 word"

record FilterMirror =
  mirrorBackend :: "Backend option"
  mirrorPercentage :: "float64 option"

record HeaderPair =
  GetName :: string
  GetValue :: string

record FilterRequestHeader =
  GetSet :: "HeaderPair list"
  GetAdd :: "HeaderPair list"
  GetRemove :: "string list"

text \<open>A filter is a oneof: at most one alternative is set.\<close>

datatype Filter =
    Filter_Unset
  | Filter_RequestHeader FilterRequestHeader
  | Filter_Mirror FilterMirror
  | Filter_Redirect FilterRedirect

record Rule =
  GetMatches :: "HttpMatch list"
  GetFilters :: "Filter list"
  GetBackends :: "Backend list"

record HttpRoute =
  httpHostnames :: "string list"
  httpRules :: "Rule list"

text \<open>
  A gateway route resource; \<open>confHttp\<close> is what \<open>Spec.GetConf().GetHttp()\<close> returns, nil
  when either message is absent.
\<close>

record GatewayRouteResource =
  confHttp :: "HttpRoute option"

definition GetHostnames :: "HttpRoute option \<Rightarrow> string list" where
  "GetHostnames h = (case h of None \<Rightarrow> [] | Some r \<Rightarrow> httpHostnames r)"

definition GetRules :: "HttpRoute option \<Rightarrow> Rule list" where
  "GetRules h = (case h of None \<Rightarrow> [] | Some r \<Rightarrow> httpRules r)"

section \<open>Dataplane metadata decoder (package xds)\<close>

subsection \<open>The untyped metadata bag\<close>

text \<open>
  A \<open>structpb.Value\<close> is a tagged union. The decoder only ever reads the string and the
  struct alternative. A \<open>structpb.Struct\<close> is its \<open>Fields\<close> map; a missing key and a
  key bound to a nil pointer both read as \<open>None\<close>.
\<close>

datatype Value =
    KindUnset
  | NullValue
  | NumberValue float64
  | StringValue string
  | BoolValue bool
  | StructValue "string \<Rightarrow> Value option"
  | ListValue "Value list"

type_synonym Struct = "string \<Rightarrow> Value option"

text \<open>The generated getters are nil-safe and return the zero value for any other kind.\<close>

fun GetStringValue :: "Value option \<Rightarrow> string" where
  "GetStringValue (Some (StringValue s)) = s"
| "GetStringValue _ = ''''"

fun GetStructValue :: "Value option \<Rightarrow> Struct option" where
  "GetStructValue (Some (StructValue f)) = Some f"
| "GetStructValue _ = None"

fun GetFields :: "Struct option \<Rightarrow> Struct" where
  "GetFields (Some f) = f"
| "GetFields None = Map.empty"

definition fieldDataplaneToken :: string where
  "fieldDataplaneToken = ''dataplane.token''"

definition fieldDataplaneAdminPort :: string where
  "fieldDataplaneAdminPort = ''dataplane.admin.port''"

definition fieldDataplaneDNSPort :: string where
  "fieldDataplaneDNSPort = ''dataplane.dns.port''"

definition fieldDataplaneDNSEmptyPort :: string where
  "fieldDataplaneDNSEmptyPort = ''dataplane.dns.empty.port''"

definition fieldDataplaneDataplaneResource :: string where
  "fieldDataplaneDataplaneResource = ''dataplane.resource''"

definition fieldDynamicMetadata :: string where
  "fieldDynamicMetadata = ''dynamicMetadata''"

definition fieldDataplaneProxyType :: string where
  "fieldDataplaneProxyType = ''dataplane.proxyType''"

definition fieldVersion :: string where
  "fieldVersion = ''version''"

subsection \<open>strconv.Atoi\<close>

text \<open>
  Go's \<open>strconv.Atoi\<close>, which reads base 10: an optional sign, then at least one decimal
  digit and nothing else. The digits are accumulated from the left as an unsigned 64-bit
  number, with a range error at the first digit that overflows it; the signed value then
  has to fit the platform's \<open>int\<close>, taken here as 64 bits wide. A syntax error and a range
  error both come back as a non-nil error.
\<close>

datatype NumError = ErrSyntax | ErrRange

definition isDigit :: "char \<Rightarrow> bool" where
  "isDigit c = (48 \<le> (of_char c :: nat) \<and> (of_char c :: nat) \<le> 57)"

definition digitOf :: "char \<Rightarrow> int" where
  "digitOf c = int (of_char c) - 48"

fun parseUint :: "int \<Rightarrow> string \<Rightarrow> NumError + int" where
  "parseUint n [] = Inr n"
| "parseUint n (c # cs) =
     (if \<not> isDigit c then Inl ErrSyntax
      else if n * 10 + digitOf c > 2 ^ 64 - 1 then Inl ErrRange
      else parseUint (n * 10 + digitOf c) cs)"

definition Atoi :: "string \<Rightarrow> NumError + int" where
  "Atoi s =
     (case s of
        [] \<Rightarrow> Inl ErrSyntax
      | c # cs \<Rightarrow>
          (let neg = (c = CHR ''-'');
               body = (if c = CHR ''-'' \<or> c = CHR ''+'' then cs else s)
           in if body = [] then Inl ErrSyntax
              else
                (case parseUint 0 body of
                   Inl err \<Rightarrow> Inl err
                 | Inr un \<Rightarrow>
                     (if \<not> neg \<and> un \<ge> 2 ^ 63 then Inl ErrRange
                      else if neg \<and> un > 2 ^ 63 then Inl ErrRange
                      else Inr (if neg then - un else un)))))"

text \<open>
  What a decimal integer is, apart from any machine: an optional sign and one or more
  decimal digits, read in base ten without a bound.
\<close>

fun digitsValue :: "int \<Rightarrow> string \<Rightarrow> int option" where
  "digitsValue n [] = Some n"
| "digitsValue n (c # cs) = (if isDigit c then digitsValue (n * 10 + digitOf c) cs else None)"

definition decimalInteger :: "string \<Rightarrow> int option" where
  "decimalInteger s =
     (case s of
        [] \<Rightarrow> None
      | c # cs \<Rightarrow>
          (if c = CHR ''-'' then (if cs = [] then None else map_option uminus (digitsValue 0 cs))
           else if c = CHR ''+'' then (if cs = [] then None else digitsValue 0 cs)
           else digitsValue 0 s))"

subsection \<open>Log records\<close>

text \<open>
  The package logger is a process-wide singleton; the model threads the emitted records
  through as a list. A record keeps the message and the name of the field it is about.
\<close>

record LogRecord =
  logMsg :: string
  logField :: string

subsection \<open>uint32Metadata\<close>

definition uint32Metadata :: "Struct \<Rightarrow> string \<Rightarrow> 32 word \<times> LogRecord list" where
  "uint32Metadata xdsMetadata field =
     (case xdsMetadata field of
        None \<Rightarrow> (0, [])
      | Some v \<Rightarrow>
          (case Atoi (GetStringValue (Some v)) of
             Inl err \<Rightarrow>
               (0, [\<lparr>logMsg = ''invalid value in dataplane metadata'', logField = field\<rparr>])
           | Inr port \<Rightarrow> (word_of_int port, [])))"

subsection \<open>The decoded record and its accessors\<close>

text \<open>
  \<open>model.Resource\<close> is an interface. The code modelled here tells four cases apart by
  type assertion: a dataplane resource, a zone ingress resource, a gateway route resource,
  and a resource of any other registered type, of which only the descriptor name is read.
  The payload string of the first two stands for the decoded object.
\<close>

datatype Resource =
    DataplaneResource string
  | ZoneIngressResource string
  | GatewayRoute GatewayRouteResource
  | OtherResource string


record Version =
  kumaDp :: string
  envoy :: string
  dependencies :: "string \<Rightarrow> string option"

record DataplaneMetadata =
  DataplaneToken :: string
  Resource :: "Resource option"
  AdminPort :: "32 word"
  DNSPort :: "32 word"
  EmptyDNSPort :: "32 word"
  DynamicMetadata :: "(string \<Rightarrow> string option) option"
  ProxyType :: string
  Version :: "Version option"

text \<open>The zero value \<open>DataplaneMetadata{}\<close>.\<close>

definition zeroDataplaneMetadata :: DataplaneMetadata where
  "zeroDataplaneMetadata =
     \<lparr>DataplaneToken = [], Resource = None, AdminPort = 0, DNSPort = 0, EmptyDNSPort = 0,
      DynamicMetadata = None, ProxyType = [], Version = None\<rparr>"

text \<open>
  Modelled from the spec: the constant \<open>mesh_proto.DataplaneProxyType\<close> is declared outside
  the sources at hand; it is the proxy type a record without one reads as.
\<close>

definition DataplaneProxyType :: string where
  "DataplaneProxyType = ''dataplane''"

text \<open>The receiver of every accessor is a pointer: \<open>None\<close> is the nil receiver.\<close>

definition GetDataplaneToken :: "DataplaneMetadata option \<Rightarrow> string" where
  "GetDataplaneToken m = (case m of None \<Rightarrow> [] | Some r \<Rightarrow> DataplaneToken r)"

definition GetDataplaneResource :: "DataplaneMetadata option \<Rightarrow> string option" where
  "GetDataplaneResource m =
     (case m of
        Some r \<Rightarrow> (case Resource r of Some (DataplaneResource d) \<Rightarrow> Some d | _ \<Rightarrow> None)
      | None \<Rightarrow> None)"

definition GetZoneIngressResource :: "DataplaneMetadata option \<Rightarrow> string option" where
  "GetZoneIngressResource m =
     (case m of
        Some r \<Rightarrow> (case Resource r of Some (ZoneIngressResource z) \<Rightarrow> Some z | _ \<Rightarrow> None)
      | None \<Rightarrow> None)"

definition GetProxyType :: "DataplaneMetadata option \<Rightarrow> string" where
  "GetProxyType m =
     (case m of
        None \<Rightarrow> DataplaneProxyType
      | Some r \<Rightarrow> (if ProxyType r = [] then DataplaneProxyType else ProxyType r))"

definition GetAdminPort :: "DataplaneMetadata option \<Rightarrow> 32 word" where
  "GetAdminPort m = (case m of None \<Rightarrow> 0 | Some r \<Rightarrow> AdminPort r)"

definition GetDNSPort :: "DataplaneMetadata option \<Rightarrow> 32 word" where
  "GetDNSPort m = (case m of None \<Rightarrow> 0 | Some r \<Rightarrow> DNSPort r)"

definition GetEmptyDNSPort :: "DataplaneMetadata option \<Rightarrow> 32 word" where
  "GetEmptyDNSPort m = (case m of None \<Rightarrow> 0 | Some r \<Rightarrow> EmptyDNSPort r)"

definition GetDynamicMetadata :: "DataplaneMetadata option \<Rightarrow> string \<Rightarrow> string" where
  "GetDynamicMetadata m key =
     (case m of
        None \<Rightarrow> []
      | Some r \<Rightarrow>
          (case DynamicMetadata r of
             None \<Rightarrow> []
           | Some d \<Rightarrow> (case d key of None \<Rightarrow> [] | Some v \<Rightarrow> v)))"

definition GetVersion :: "DataplaneMetadata option \<Rightarrow> Version option" where
  "GetVersion m = (case m of None \<Rightarrow> None | Some r \<Rightarrow> Version r)"

subsection \<open>DataplaneMetadataFromXdsMetadata\<close>

text \<open>
  Two helpers live outside the sources at hand and are parameters of the decoder:
  \<^item> \<open>UnmarshallToCore\<close> returns the Go pair \<open>(model.Resource, error)\<close>, either of which
    may be nil;
  \<^item> \<open>ToTyped\<close> fills the freshly allocated version in place and returns an error; it is
    given as the version left behind together with that error.
  A call of a method on a nil interface value is a run-time panic.
\<close>

datatype panic = NilDereference

type_synonym unmarshaller = "string \<Rightarrow> Resource option \<times> string option"
type_synonym typer = "Struct \<Rightarrow> Version \<times> string option"

definition errLog :: "string option \<Rightarrow> string \<Rightarrow> string \<Rightarrow> LogRecord list" where
  "errLog err m field =
     (case err of None \<Rightarrow> [] | Some e \<Rightarrow> [\<lparr>logMsg = m, logField = field\<rparr>])"

text \<open>The block guarded by \<open>Fields[fieldDataplaneDataplaneResource] != nil\<close>.\<close>

definition decodeResource ::
  "unmarshaller \<Rightarrow> Struct \<Rightarrow> DataplaneMetadata \<Rightarrow> panic + (DataplaneMetadata \<times> LogRecord list)"
where
  "decodeResource UnmarshallToCore xds metadata =
     (case xds fieldDataplaneDataplaneResource of
        None \<Rightarrow> Inr (metadata, [])
      | Some v \<Rightarrow>
          (case UnmarshallToCore (GetStringValue (Some v)) of
             (res, err) \<Rightarrow>
               (let l = errLog err ''invalid value in dataplane metadata''
                          fieldDataplaneDataplaneResource
                in case res of
                     Some (DataplaneResource d) \<Rightarrow>
                       Inr (metadata\<lparr>Resource := Some (DataplaneResource d)\<rparr>, l)
                   | Some (ZoneIngressResource z) \<Rightarrow>
                       Inr (metadata\<lparr>Resource := Some (ZoneIngressResource z)\<rparr>, l)
                   | Some r \<Rightarrow>
                       Inr (metadata,
                            l @ [\<lparr>logMsg = ''invalid dataplane resource type'',
                                   logField = fieldDataplaneDataplaneResource\<rparr>])
                   | None \<Rightarrow> Inl NilDereference)))"

definition decodeDynamicMetadata :: "Struct \<Rightarrow> DataplaneMetadata \<Rightarrow> DataplaneMetadata" where
  "decodeDynamicMetadata xds metadata =
     (case xds fieldDynamicMetadata of
        None \<Rightarrow> metadata
      | Some v \<Rightarrow>
          metadata\<lparr>DynamicMetadata :=
            Some (\<lambda>field. map_option (\<lambda>val. GetStringValue (Some val))
                           (GetFields (GetStructValue (Some v)) field))\<rparr>)"

definition decodeVersion ::
  "typer \<Rightarrow> Struct \<Rightarrow> DataplaneMetadata \<Rightarrow> DataplaneMetadata \<times> LogRecord list"
where
  "decodeVersion ToTyped xds metadata =
     (case GetStructValue (xds fieldVersion) of
        None \<Rightarrow> (metadata, [])
      | Some sv \<Rightarrow>
          (case ToTyped sv of
             (version, err) \<Rightarrow>
               (metadata\<lparr>Version := Some version\<rparr>,
                errLog err ''invalid value in dataplane metadata'' fieldVersion)))"

definition DataplaneMetadataFromXdsMetadata ::
  "unmarshaller \<Rightarrow> typer \<Rightarrow> Struct option \<Rightarrow> panic + (DataplaneMetadata \<times> LogRecord list)"
where
  "DataplaneMetadataFromXdsMetadata UnmarshallToCore ToTyped xdsMetadata =
     (case xdsMetadata of
        None \<Rightarrow> Inr (zeroDataplaneMetadata, [])
      | Some xds \<Rightarrow>
          (let m1 = (case xds fieldDataplaneToken of
                       None \<Rightarrow> zeroDataplaneMetadata
                     | Some field \<Rightarrow>
                         zeroDataplaneMetadata\<lparr>DataplaneToken := GetStringValue (Some field)\<rparr>);
               m2 = (case xds fieldDataplaneProxyType of
                       None \<Rightarrow> m1
                     | Some field \<Rightarrow> m1\<lparr>ProxyType := GetStringValue (Some field)\<rparr>);
               a = uint32Metadata xds fieldDataplaneAdminPort;
               d = uint32Metadata xds fieldDataplaneDNSPort;
               e = uint32Metadata xds fieldDataplaneDNSEmptyPort;
               m3 = m2\<lparr>AdminPort := fst a, DNSPort := fst d, EmptyDNSPort := fst e\<rparr>
           in case decodeResource UnmarshallToCore xds m3 of
                Inl p \<Rightarrow> Inl p
              | Inr (m4, lr) \<Rightarrow>
                  (case decodeVersion ToTyped xds (decodeDynamicMetadata xds m4) of
                     (m5, lv) \<Rightarrow> Inr (m5, snd a @ snd d @ snd e @ lr @ lv))))"

section \<open>TLS context synthesizer (package v3)\<close>

text \<open>
  Modelled from the spec: the mesh resource and its \<open>MTLSEnabled\<close> and \<open>Meta.GetName\<close>
  methods are declared outside the sources at hand; the mesh identity policy is a per-mesh
  mTLS enabled flag next to the mesh name.
\<close>

record MeshContext =
  MTLSEnabled :: bool
  MeshName :: string

datatype StringMatcher =
    StringMatcher_Exact string
  | StringMatcher_Prefix string

datatype ApiVersion = ApiVersion_AUTO | ApiVersion_V2 | ApiVersion_V3

datatype ConfigSourceSpecifier = ConfigSource_Ads

record ConfigSource =
  ResourceApiVersion :: ApiVersion
  ConfigSourceSpecifier :: ConfigSourceSpecifier

record SdsSecretConfig =
  sdsName :: string
  SdsConfig :: ConfigSource

record CertificateValidationContext =
  MatchSubjectAltNames :: "StringMatcher list"

record CombinedCertificateValidationContext =
  DefaultValidationContext :: CertificateValidationContext
  ValidationContextSdsSecretConfig :: SdsSecretConfig

record CommonTlsContext =
  CombinedValidationContext :: CombinedCertificateValidationContext
  TlsCertificateSdsSecretConfigs :: "SdsSecretConfig list"
  AlpnProtocols :: "string list"

record DownstreamTlsContext =
  downstreamCommonTlsContext :: CommonTlsContext
  RequireClientCertificate :: "bool option"

record UpstreamTlsContext =
  upstreamCommonTlsContext :: CommonTlsContext
  Sni :: string

text \<open>
  Modelled from the spec: the package \<open>xds_tls\<close> is outside the sources at hand. Its
  secret names are the named handles of the trust anchor and of the identity certificate
  (the source's comment names the latter \<open>identity_cert\<close>), and \<open>KumaALPNProtocols\<close> is
  the fixed, mesh-wide application-protocol list.
\<close>

definition MeshCaResource :: string where
  "MeshCaResource = ''mesh_ca''"

definition IdentityCertResource :: string where
  "IdentityCertResource = ''identity_cert''"

definition KumaALPNProtocols :: "string list" where
  "KumaALPNProtocols = [''kuma'']"

text \<open>
  Modelled from the spec: \<open>xds_tls.MeshSpiffeIDPrefix\<close> is the mesh-wide namespace prefix
  \<open>spiffe://{mesh_name}/\<close>, and \<open>xds_tls.ServiceSpiffeID\<close> is the exact identity
  \<open>spiffe://{mesh_name}/{upstream_service}\<close>; both are named so in the comments of the
  two synthesis functions.
\<close>

definition MeshSpiffeIDPrefix :: "string \<Rightarrow> string" where
  "MeshSpiffeIDPrefix mesh = ''spiffe://'' @ mesh @ ''/''"

definition ServiceSpiffeID :: "string \<Rightarrow> string \<Rightarrow> string" where
  "ServiceSpiffeID mesh service = ''spiffe://'' @ mesh @ ''/'' @ service"

definition MeshSpiffeIDPrefixMatcher :: "string \<Rightarrow> StringMatcher" where
  "MeshSpiffeIDPrefixMatcher mesh = StringMatcher_Prefix (MeshSpiffeIDPrefix mesh)"

definition ServiceSpiffeIDMatcher :: "string \<Rightarrow> string \<Rightarrow> StringMatcher" where
  "ServiceSpiffeIDMatcher mesh service = StringMatcher_Exact (ServiceSpiffeID mesh service)"

definition sdsSecretConfig :: "string \<Rightarrow> SdsSecretConfig" where
  "sdsSecretConfig name =
     \<lparr>sdsName = name,
      SdsConfig = \<lparr>ResourceApiVersion = ApiVersion_V3,
                   ConfigSourceSpecifier = ConfigSource_Ads\<rparr>\<rparr>"

text \<open>A Go result pair \<open>(*T, error)\<close>: either component may be nil.\<close>

type_synonym 'a result = "'a option \<times> string option"

text \<open>
  \<open>createCommonTlsContext\<close> returns a freshly allocated context or an error; its result is
  a sum, \<open>Inl\<close> the error.
\<close>

definition createCommonTlsContext :: "StringMatcher \<Rightarrow> string + CommonTlsContext" where
  "createCommonTlsContext validationSANMatcher =
     (let meshCaSecret = sdsSecretConfig MeshCaResource;
          identitySecret = sdsSecretConfig IdentityCertResource
      in Inr \<lparr>CombinedValidationContext =
                 \<lparr>DefaultValidationContext =
                    \<lparr>MatchSubjectAltNames = [validationSANMatcher]\<rparr>,
                  ValidationContextSdsSecretConfig = meshCaSecret\<rparr>,
               TlsCertificateSdsSecretConfigs = [identitySecret],
               AlpnProtocols = []\<rparr>)"

definition CreateDownstreamTlsContext :: "MeshContext \<Rightarrow> DownstreamTlsContext result" where
  "CreateDownstreamTlsContext ctx =
     (if \<not> MTLSEnabled ctx then (None, None)
      else
        (let validationSANMatcher = MeshSpiffeIDPrefixMatcher (MeshName ctx)
         in case createCommonTlsContext validationSANMatcher of
              Inl err \<Rightarrow> (None, Some err)
            | Inr commonTlsContext \<Rightarrow>
                (Some \<lparr>downstreamCommonTlsContext = commonTlsContext,
                       RequireClientCertificate = Some True\<rparr>,
                 None)))"

definition CreateUpstreamTlsContext ::
  "MeshContext \<Rightarrow> string \<Rightarrow> string \<Rightarrow> UpstreamTlsContext result"
where
  "CreateUpstreamTlsContext ctx upstreamService sni =
     (if \<not> MTLSEnabled ctx then (None, None)
      else
        (let validationSANMatcher =
               (if upstreamService = ''*''
                then MeshSpiffeIDPrefixMatcher (MeshName ctx)
                else ServiceSpiffeIDMatcher (MeshName ctx) upstreamService)
         in case createCommonTlsContext validationSANMatcher of
              Inl err \<Rightarrow> (None, Some err)
            | Inr commonTlsContext \<Rightarrow>
                (Some \<lparr>upstreamCommonTlsContext =
                         commonTlsContext\<lparr>AlpnProtocols := KumaALPNProtocols\<rparr>,
                       Sni = sni\<rparr>,
                 None)))"

text \<open>The peer-identity matchers of a common TLS context.\<close>

definition sanMatchers :: "CommonTlsContext \<Rightarrow> StringMatcher list" where
  "sanMatchers c = MatchSubjectAltNames (DefaultValidationContext (CombinedValidationContext c))"

text \<open>
  What a synthesis result verifies the peer against; \<open>None\<close> when there is no context.
\<close>

definition upstreamMatchers :: "UpstreamTlsContext result \<Rightarrow> StringMatcher list option" where
  "upstreamMatchers r = map_option (\<lambda>u. sanMatchers (upstreamCommonTlsContext u)) (fst r)"

definition downstreamMatchers :: "DownstreamTlsContext result \<Rightarrow> StringMatcher list option" where
  "downstreamMatchers r = map_option (\<lambda>d. sanMatchers (downstreamCommonTlsContext d)) (fst r)"

section \<open>Route table builder (package gateway)\<close>

subsection \<open>Route table entries (package route)\<close>

text \<open>
  The types of package \<open>route\<close>, with the fields the generator writes. A Go string is a
  byte sequence; the empty string is the unset path or method.
\<close>

record KeyValue =
  Key :: string
  Val :: string

definition Pair :: "string \<Rightarrow> string \<Rightarrow> KeyValue" where
  "Pair k v = \<lparr>Key = k, Val = v\<rparr>"

record Match =
  ExactPath :: string
  PrefixPath :: string
  RegexPath :: string
  Method :: string
  ExactHeader :: "KeyValue list"
  RegexHeader :: "KeyValue list"
  ExactQuery :: "KeyValue list"
  RegexQuery :: "KeyValue list"

record Destination =
  destTags :: "string \<Rightarrow> string option"
  Weight :: "32 word"

record Redirection =
  Status :: "32 word"
  Scheme :: string
  Host :: string
  Port :: "32 word"
  StripQuery :: bool

record Action =
  Forward :: "Destination list"
  Redirect :: "Redirection option"

record Mirror =
  Percentage :: float64
  mirrorForward :: Destination

record Headers =
  Append :: "KeyValue list"
  Replace :: "KeyValue list"
  Delete :: "string list"

record Entry =
  Match :: Match
  Action :: Action
  Mirror :: "Mirror option"
  RequestHeaders :: "Headers option"

definition zeroMatch :: Match where
  "zeroMatch =
     \<lparr>ExactPath = [], PrefixPath = [], RegexPath = [], Method = [],
      ExactHeader = [], RegexHeader = [], ExactQuery = [], RegexQuery = []\<rparr>"

definition zeroEntry :: Entry where
  "zeroEntry =
     \<lparr>Match = zeroMatch, Action = \<lparr>Forward = [], Redirect = None\<rparr>,
      Mirror = None, RequestHeaders = None\<rparr>"

definition zeroHeaders :: Headers where
  "zeroHeaders = \<lparr>Append = [], Replace = [], Delete = []\<rparr>"

subsection \<open>makeRouteEntry\<close>

definition addBackend :: "Entry \<Rightarrow> Backend \<Rightarrow> Entry" where
  "addBackend entry b =
     (let target = \<lparr>destTags = GetDestination b, Weight = GetWeight b\<rparr>
      in entry\<lparr>Action := (Action entry)\<lparr>Forward := Forward (Action entry) @ [target]\<rparr>\<rparr>)"

definition mirrorDestination :: "Backend option \<Rightarrow> string \<Rightarrow> string option" where
  "mirrorDestination b = (case b of None \<Rightarrow> Map.empty | Some k \<Rightarrow> GetDestination k)"

definition percentageValue :: "float64 option \<Rightarrow> float64" where
  "percentageValue p = (case p of None \<Rightarrow> 0 | Some v \<Rightarrow> v)"

fun addFilter :: "Entry \<Rightarrow> Filter \<Rightarrow> Entry" where
  "addFilter entry (Filter_Redirect r) =
     entry\<lparr>Action := (Action entry)\<lparr>Redirect :=
       Some \<lparr>Status = GetStatusCode r, Scheme = GetScheme r, Host = GetHostname r,
             Port = GetPort r, StripQuery = True\<rparr>\<rparr>\<rparr>"
| "addFilter entry (Filter_Mirror m) =
     entry\<lparr>Mirror :=
       Some \<lparr>Percentage = percentageValue (mirrorPercentage m),
             mirrorForward = \<lparr>destTags = mirrorDestination (mirrorBackend m), Weight = 0\<rparr>\<rparr>\<rparr>"
| "addFilter entry (Filter_RequestHeader h) =
     (let hs = (case RequestHeaders entry of None \<Rightarrow> zeroHeaders | Some x \<Rightarrow> x);
          hs = hs\<lparr>Replace := Replace hs @ map (\<lambda>s. Pair (GetName s) (GetValue s)) (GetSet h)\<rparr>;
          hs = hs\<lparr>Append := Append hs @ map (\<lambda>s. Pair (GetName s) (GetValue s)) (GetAdd h)\<rparr>;
          hs = hs\<lparr>Delete := Delete hs @ GetRemove h\<rparr>
      in entry\<lparr>RequestHeaders := Some hs\<rparr>)"
| "addFilter entry Filter_Unset = entry"

definition makeRouteEntry :: "Rule \<Rightarrow> Entry" where
  "makeRouteEntry rule =
     foldl addFilter (foldl addBackend zeroEntry (GetBackends rule)) (GetFilters rule)"

subsection \<open>makeRouteMatch\<close>

text \<open>
  The map \<open>names\<close> of the source. It has no key for the sentinel \<open>NONE\<close>, for which a Go
  map lookup gives the empty string; the source never looks the sentinel up.
\<close>

fun names :: "MatchMethod \<Rightarrow> string" where
  "names Match_CONNECT = ''CONNECT''"
| "names Match_DELETE = ''DELETE''"
| "names Match_GET = ''GET''"
| "names Match_HEAD = ''HEAD''"
| "names Match_OPTIONS = ''OPTIONS''"
| "names Match_PATCH = ''PATCH''"
| "names Match_POST = ''POST''"
| "names Match_PUT = ''PUT''"
| "names Match_TRACE = ''TRACE''"
| "names Match_NONE = []"

definition setPath :: "Match \<Rightarrow> MatchPath option \<Rightarrow> Match" where
  "setPath match p =
     (case p of
        None \<Rightarrow> match
      | Some q \<Rightarrow>
          (case pathMatch q of
             Path_EXACT \<Rightarrow> match\<lparr>ExactPath := pathValue q\<rparr>
           | Path_PREFIX \<Rightarrow> match\<lparr>PrefixPath := pathValue q\<rparr>
           | Path_REGEX \<Rightarrow> match\<lparr>RegexPath := pathValue q\<rparr>))"

definition addHeader :: "Match \<Rightarrow> MatchHeader \<Rightarrow> Match" where
  "addHeader match h =
     (case headerMatch h of
        Header_EXACT \<Rightarrow>
          match\<lparr>ExactHeader := ExactHeader match @ [Pair (headerName h) (headerValue h)]\<rparr>
      | Header_REGEX \<Rightarrow>
          match\<lparr>RegexHeader := RegexHeader match @ [Pair (headerName h) (headerValue h)]\<rparr>)"

definition addQuery :: "Match \<Rightarrow> MatchQuery \<Rightarrow> Match" where
  "addQuery match q =
     (case queryMatch q of
        Query_EXACT \<Rightarrow>
          match\<lparr>ExactQuery := ExactQuery match @ [Pair (queryName q) (queryValue q)]\<rparr>
      | Query_REGEX \<Rightarrow>
          match\<lparr>RegexQuery := RegexQuery match @ [Pair (queryName q) (queryValue q)]\<rparr>)"

definition makeRouteMatch :: "HttpMatch \<Rightarrow> Match" where
  "makeRouteMatch ruleMatch =
     (let match = setPath zeroMatch (GetPath ruleMatch);
          match = (if GetMethod ruleMatch \<noteq> Match_NONE
                   then match\<lparr>Method := names (GetMethod ruleMatch)\<rparr> else match);
          match = foldl addHeader match (GetHeaders ruleMatch)
      in foldl addQuery match (GetQueryParameters ruleMatch))"

subsection \<open>Go maps and their iteration order\<close>

text \<open>
  The two accumulators of \<open>GenerateHost\<close> are Go maps keyed by path. A map is an
  association list with distinct keys; a store (\<open>AList.update\<close>) overwrites the value of a
  key already present. Go leaves the order of a \<open>range\<close> over a map unspecified: the
  order of one loop is fixed by a list of choices, each choice picking the next element
  among those not yet visited. Every list of choices gives a permutation of the map, and
  every permutation is given by some list of choices.
\<close>

primrec rangeOrder :: "nat list \<Rightarrow> 'a list \<Rightarrow> 'a list" where
  "rangeOrder [] xs = xs"
| "rangeOrder (c # cs) xs =
     (if xs = [] then []
      else (let i = c mod length xs
            in xs ! i # rangeOrder cs (take i xs @ drop (Suc i) xs)))"

text \<open>\<open>strings.TrimRight\<close>: drop every trailing byte that is in the cutset.\<close>

definition TrimRight :: "string \<Rightarrow> string \<Rightarrow> string" where
  "TrimRight s cutset = rev (dropWhile (\<lambda>c. c \<in> set cutset) (rev s))"

subsection \<open>GenerateHost\<close>

text \<open>
  Modelled from the spec: the constant \<open>WildcardHostname\<close> is declared outside the sources
  at hand; it is the wildcard virtual-host sentinel.
\<close>

definition WildcardHostname :: string where
  "WildcardHostname = ''*''"

record GatewayHost =
  Hostname :: string
  Routes :: "Resource list"

record Table =
  Entries :: "Entry list"

record GatewayResourceInfo =
  infoHost :: GatewayHost
  infoRouteTable :: Table

typedecl ResourceSet

fun filterGatewayRoutes ::
  "Resource list \<Rightarrow> (GatewayRouteResource \<Rightarrow> bool) \<Rightarrow> GatewayRouteResource list"
where
  "filterGatewayRoutes [] accept = []"
| "filterGatewayRoutes (GatewayRoute trafficRoute # rs) accept =
     (if accept trafficRoute then trafficRoute # filterGatewayRoutes rs accept
      else filterGatewayRoutes rs accept)"
| "filterGatewayRoutes (r # rs) accept = filterGatewayRoutes rs accept"

text \<open>
  The acceptance predicate handed to the filter. \<open>match.Hostnames\<close> is outside the sources
  at hand and is a parameter.
\<close>

definition acceptRoute ::
  "(string \<Rightarrow> string list \<Rightarrow> bool) \<Rightarrow> GatewayResourceInfo \<Rightarrow> GatewayRouteResource \<Rightarrow> bool"
where
  "acceptRoute matchHostnames info route =
     (if Hostname (infoHost info) = WildcardHostname then True
      else (let hostnames = GetHostnames (confHttp route)
            in if length hostnames = 0 then True
               else matchHostnames (Hostname (infoHost info)) hostnames))"

text \<open>
  The state of the first loop: the entries of the caller's route table, the exact
  accumulator and the prefix accumulator.
\<close>

type_synonym pathMap = "(string \<times> Entry) list"

type_synonym collected = "Entry list \<times> pathMap \<times> pathMap"

text \<open>The \<open>switch\<close> that files one denormalized entry.\<close>

definition fileEntry :: "collected \<Rightarrow> Entry \<Rightarrow> collected" where
  "fileEntry st routeEntry =
     (case st of
        (tbl, exactEntries, prefixEntries) \<Rightarrow>
          (if ExactPath (Match routeEntry) \<noteq> []
           then (tbl, AList.update (ExactPath (Match routeEntry)) routeEntry exactEntries,
                 prefixEntries)
           else if PrefixPath (Match routeEntry) \<noteq> []
           then (tbl, exactEntries,
                 AList.update (PrefixPath (Match routeEntry)) routeEntry prefixEntries)
           else (tbl @ [routeEntry], exactEntries, prefixEntries)))"

definition addMatch :: "Entry \<Rightarrow> collected \<Rightarrow> HttpMatch \<Rightarrow> collected" where
  "addMatch entry st m = fileEntry st (entry\<lparr>Match := makeRouteMatch m\<rparr>)"

definition addRule :: "collected \<Rightarrow> Rule \<Rightarrow> collected" where
  "addRule st rule = foldl (addMatch (makeRouteEntry rule)) st (GetMatches rule)"

definition addRoute :: "collected \<Rightarrow> GatewayRouteResource \<Rightarrow> collected" where
  "addRoute st route = foldl addRule st (GetRules (confHttp route))"

text \<open>One step of the prefix-expansion loop, on the table entries and the exact accumulator.\<close>

definition setPrefixPath :: "Entry \<Rightarrow> string \<Rightarrow> Entry" where
  "setPrefixPath e p = e\<lparr>Match := (Match e)\<lparr>PrefixPath := p\<rparr>\<rparr>"

definition expandPrefix :: "Entry list \<times> pathMap \<Rightarrow> Entry \<Rightarrow> Entry list \<times> pathMap" where
  "expandPrefix st e =
     (case st of
        (tbl, exactEntries) \<Rightarrow>
          (let exact = TrimRight (PrefixPath (Match e)) ''/'';
               prefixEntry = setPrefixPath e (exact @ ''/'');
               tbl = tbl @ [prefixEntry]
           in if PrefixPath (Match prefixEntry) = ''/'' then (tbl, exactEntries)
              else if map_of exactEntries exact = None
              then (let exactMatch =
                          prefixEntry\<lparr>Match :=
                            (Match prefixEntry)\<lparr>PrefixPath := [], ExactPath := exact\<rparr>\<rparr>
                    in (tbl, AList.update exact exactMatch exactEntries))
              else (tbl, exactEntries)))"

text \<open>
  \<open>GenerateHost\<close> appends to the route table of \<open>info\<close> and returns the Go pair
  \<open>(*core_xds.ResourceSet, error)\<close>. The choices \<open>cp\<close> and \<open>ce\<close> fix the order of the
  range over the prefix and over the exact accumulator. The debug log line is left out.
\<close>

definition GenerateHost ::
  "(string \<Rightarrow> string list \<Rightarrow> bool) \<Rightarrow> nat list \<Rightarrow> nat list \<Rightarrow> GatewayResourceInfo
     \<Rightarrow> (ResourceSet option \<times> string option) \<times> GatewayResourceInfo"
where
  "GenerateHost matchHostnames cp ce info =
     (let gatewayRoutes =
            filterGatewayRoutes (Routes (infoHost info)) (acceptRoute matchHostnames info)
      in if length gatewayRoutes = 0 then ((None, None), info)
         else
           (case foldl addRoute (Entries (infoRouteTable info), [], []) gatewayRoutes of
              (tbl, exactEntries, prefixEntries) \<Rightarrow>
                (case foldl expandPrefix (tbl, exactEntries)
                        (map snd (rangeOrder cp prefixEntries)) of
                   (tbl, exactEntries) \<Rightarrow>
                     ((None, None),
                      info\<lparr>infoRouteTable :=
                        (infoRouteTable info)\<lparr>Entries :=
                          tbl @ map snd (rangeOrder ce exactEntries)\<rparr>\<rparr>))))"

text \<open>The entries one call appends to the caller's table.\<close>

definition produced ::
  "(string \<Rightarrow> string list \<Rightarrow> bool) \<Rightarrow> nat list \<Rightarrow> nat list \<Rightarrow> GatewayResourceInfo \<Rightarrow> Entry list"
where
  "produced matchHostnames cp ce info =
     drop (length (Entries (infoRouteTable info)))
       (Entries (infoRouteTable (snd (GenerateHost matchHostnames cp ce info))))"


text \<open>
  The shape of an entry that the first loop appends directly: neither an exact nor a
  prefix path.
\<close>

definition isOther :: "Entry \<Rightarrow> bool" where
  "isOther e = (ExactPath (Match e) = [] \<and> PrefixPath (Match e) = [])"

text \<open>The routes the filter accepts for the host of \<open>info\<close>.\<close>

definition accepted ::
  "(string \<Rightarrow> string list \<Rightarrow> bool) \<Rightarrow> GatewayResourceInfo \<Rightarrow> GatewayRouteResource list"
where
  "accepted matchHostnames info =
     filterGatewayRoutes (Routes (infoHost info)) (acceptRoute matchHostnames info)"

definition endsInOneSeparator :: "string \<Rightarrow> bool" where
  "endsInOneSeparator p =
     (p \<noteq> [] \<and> last p = CHR ''/'' \<and> (butlast p = [] \<or> last (butlast p) \<noteq> CHR ''/''))"

subsection \<open>The accumulators as functions of the filed entries\<close>

text \<open>
  What the two loops leave in the accumulators, written as folds of their own: the exact
  accumulator and the prefix accumulator after filing a list of entries, and the exact
  accumulator after the prefix-expansion loop.
\<close>

definition fileExact :: "pathMap \<Rightarrow> Entry \<Rightarrow> pathMap" where
  "fileExact ex e =
     (if ExactPath (Match e) \<noteq> [] then AList.update (ExactPath (Match e)) e ex else ex)"

definition filePrefix :: "pathMap \<Rightarrow> Entry \<Rightarrow> pathMap" where
  "filePrefix pr e =
     (if ExactPath (Match e) = [] \<and> PrefixPath (Match e) \<noteq> []
      then AList.update (PrefixPath (Match e)) e pr else pr)"

definition rewritePrefix :: "Entry \<Rightarrow> Entry" where
  "rewritePrefix e = setPrefixPath e (TrimRight (PrefixPath (Match e)) ''/'' @ ''/'')"

definition synthExact :: "pathMap \<Rightarrow> Entry \<Rightarrow> pathMap" where
  "synthExact ex e =
     (let exact = TrimRight (PrefixPath (Match e)) ''/''
      in if exact \<noteq> [] \<and> map_of ex exact = None
         then AList.update exact
                (e\<lparr>Match := (Match e)\<lparr>PrefixPath := [], ExactPath := exact\<rparr>\<rparr>) ex
         else ex)"

text \<open>The entries a range over the prefix accumulator visits, in the order \<open>cp\<close> fixes.\<close>

definition prefixPass :: "nat list \<Rightarrow> Entry list \<Rightarrow> Entry list" where
  "prefixPass cp es = map snd (rangeOrder cp (foldl filePrefix [] es))"

text \<open>The exact accumulator when the last loop starts.\<close>

definition exactFinal :: "nat list \<Rightarrow> Entry list \<Rightarrow> pathMap" where
  "exactFinal cp es = foldl synthExact (foldl fileExact [] es) (prefixPass cp es)"

text \<open>
  The entries the three loops append for a list of denormalized entries: the directly
  appended ones, the rewritten prefix entries, and the exact accumulator.
\<close>

definition appended :: "nat list \<Rightarrow> nat list \<Rightarrow> Entry list \<Rightarrow> Entry list" where
  "appended cp ce es =
     filter isOther es @ map rewritePrefix (prefixPass cp es)
       @ map snd (rangeOrder ce (exactFinal cp es))"

text \<open>
  A path map is well-formed for the exact accumulator when its keys are distinct and
  every entry is stored under its own exact path, which is set, with no prefix path; for
  the prefix accumulator the same with the two paths exchanged.
\<close>

definition exactInv :: "pathMap \<Rightarrow> bool" where
  "exactInv ex =
     (distinct (map fst ex) \<and>
      (\<forall>k e. map_of ex k = Some e \<longrightarrow>
         ExactPath (Match e) = k \<and> k \<noteq> [] \<and> PrefixPath (Match e) = []))"

definition prefixInv :: "pathMap \<Rightarrow> bool" where
  "prefixInv pr =
     (distinct (map fst pr) \<and>
      (\<forall>k e. map_of pr k = Some e \<longrightarrow>
         PrefixPath (Match e) = k \<and> k \<noteq> [] \<and> ExactPath (Match e) = []))"

text \<open>
  The entries one rule denormalizes into, one per match alternative, and the denormalized
  entries of a list of routes in the order the first loop visits them.
\<close>

definition ruleEntries :: "Rule \<Rightarrow> Entry list" where
  "ruleEntries rule =
     map (\<lambda>m. (makeRouteEntry rule)\<lparr>Match := makeRouteMatch m\<rparr>) (GetMatches rule)"

definition denormalize :: "GatewayRouteResource list \<Rightarrow> Entry list" where
  "denormalize gatewayRoutes =
     concat (map (\<lambda>route. concat (map ruleEntries (GetRules (confHttp route)))) gatewayRoutes)"

subsection \<open>Scenarios\<close>

text \<open>
  Concrete inputs. A route resource with one rule, which has the given match alternatives
  and forwards to one backend of the given weight; and a host with the given name and
  routes, in front of an empty route table.
\<close>

definition routeWith :: "string list \<Rightarrow> HttpMatch list \<Rightarrow> 32 word \<Rightarrow> GatewayRouteResource" where
  "routeWith hostnames ms w =
     \<lparr>confHttp = Some
        \<lparr>httpHostnames = hostnames,
         httpRules = [\<lparr>GetMatches = ms, GetFilters = [],
                       GetBackends = [\<lparr>GetWeight = w, GetDestination = Map.empty\<rparr>]\<rparr>]\<rparr>\<rparr>"

definition hostWith :: "string \<Rightarrow> Resource list \<Rightarrow> GatewayResourceInfo" where
  "hostWith name rs =
     \<lparr>infoHost = \<lparr>Hostname = name, Routes = rs\<rparr>, infoRouteTable = \<lparr>Entries = []\<rparr>\<rparr>"

definition pathMatchOf :: "PathMatchType \<Rightarrow> string \<Rightarrow> HttpMatch" where
  "pathMatchOf k p =
     \<lparr>GetPath = Some \<lparr>pathMatch = k, pathValue = p\<rparr>, GetMethod = Match_NONE,
      GetHeaders = [], GetQueryParameters = []\<rparr>"

definition headerMatchOf :: "string \<Rightarrow> string \<Rightarrow> HttpMatch" where
  "headerMatchOf n v =
     \<lparr>GetPath = None, GetMethod = Match_NONE,
      GetHeaders = [\<lparr>headerMatch = Header_EXACT, headerName = n, headerValue = v\<rparr>],
      GetQueryParameters = []\<rparr>"

definition methodMatchOf :: "MatchMethod \<Rightarrow> HttpMatch" where
  "methodMatchOf mt =
     \<lparr>GetPath = None, GetMethod = mt, GetHeaders = [], GetQueryParameters = []\<rparr>"

text \<open>
  Scenario A of the specification: two route resources on the wildcard host, the first
  with the prefix rule \<open>/foo\<close>, the second with the exact rule \<open>/foo\<close>.
\<close>

definition scenarioA :: GatewayResourceInfo where
  "scenarioA =
     hostWith ''*''
       [GatewayRoute (routeWith [] [pathMatchOf Path_PREFIX ''/foo''] 1),
        GatewayRoute (routeWith [] [pathMatchOf Path_EXACT ''/foo''] 2)]"

text \<open>
  Scenario B of the specification: one rule with two match alternatives, the header
  \<open>X = 1\<close> and the method \<open>GET\<close>, sharing one forward action.
\<close>

definition scenarioB :: GatewayResourceInfo where
  "scenarioB =
     hostWith ''*''
       [GatewayRoute (routeWith [] [headerMatchOf ''X'' ''1'', methodMatchOf Match_GET] 1)]"

text \<open>A prefix rule for the root path, and one with several trailing separators.\<close>

definition scenarioRoot :: GatewayResourceInfo where
  "scenarioRoot = hostWith ''*'' [GatewayRoute (routeWith [] [pathMatchOf Path_PREFIX ''/''] 1)]"

definition scenarioSlashes :: GatewayResourceInfo where
  "scenarioSlashes =
     hostWith ''*'' [GatewayRoute (routeWith [] [pathMatchOf Path_PREFIX ''/foo///''] 1)]"

text \<open>A host without routes, and a host whose one accepted route has no rule.\<close>

definition scenarioNoRoutes :: GatewayResourceInfo where
  "scenarioNoRoutes = hostWith ''example.com'' []"

definition scenarioNoRules :: GatewayResourceInfo where
  "scenarioNoRules =
     hostWith ''example.com''
       [GatewayRoute \<lparr>confHttp = Some \<lparr>httpHostnames = [], httpRules = []\<rparr>\<rparr>]"

text \<open>What is compared of an entry in the scenarios: its paths, method and exact headers,
  and the weights of its forward targets.\<close>

definition entryView ::
  "Entry \<Rightarrow> string \<times> string \<times> string \<times> KeyValue list \<times> 32 word list" where
  "entryView e =
     (ExactPath (Match e), PrefixPath (Match e), Method (Match e), ExactHeader (Match e),
      map Weight (Forward (Action e)))"

subsection \<open>Method matching\<close>

text \<open>
  Modelled from the spec: the predicate that tests a request's method against a route
  table entry is outside the sources at hand. Method matching is against the fixed verb
  enumeration; an entry whose method is unset is unconstrained and matches every verb,
  an entry with a method matches the requests with that method.
\<close>

definition verbs :: "string list" where
  "verbs = [''GET'', ''POST'', ''PUT'', ''PATCH'', ''DELETE'', ''HEAD'', ''OPTIONS'',
            ''CONNECT'', ''TRACE'']"

definition methodMatches :: "Match \<Rightarrow> string \<Rightarrow> bool" where
  "methodMatches match requestMethod =
     (requestMethod \<in> set verbs \<and> (Method match = [] \<or> Method match = requestMethod))"

section \<open>Properties of the metadata decoder\<close>

lemma Atoi_minus_one: "Atoi ''-1'' = Inr (- 1)"
  by (simp add: Atoi_def isDigit_def digitOf_def)

lemma Atoi_two_to_32: "Atoi ''4294967296'' = Inr 4294967296"
  by (simp add: Atoi_def isDigit_def digitOf_def)

lemma Atoi_not_a_number: "Atoi ''not-a-number'' = Inl ErrSyntax"
  by (simp add: Atoi_def isDigit_def digitOf_def)

lemma Atoi_beyond_int: "Atoi ''9223372036854775808'' = Inl ErrRange"
  by (simp add: Atoi_def isDigit_def digitOf_def)

text \<open>
  \<open>Atoi\<close> accepts exactly the decimal integers that fit a 64-bit \<open>int\<close>, with their value.
\<close>

lemma digitOf_nonneg: "isDigit c \<Longrightarrow> 0 \<le> digitOf c"
  by (simp add: isDigit_def digitOf_def)

lemma digitsValue_mono: "digitsValue n cs = Some v \<Longrightarrow> 0 \<le> n \<Longrightarrow> n \<le> v"
proof (induction cs arbitrary: n)
  case Nil
  then show ?case by simp
next
  case (Cons c cs)
  from Cons.prems have d: "isDigit c" and v: "digitsValue (n * 10 + digitOf c) cs = Some v"
    by (auto split: if_splits)
  from d Cons.prems(2) have "0 \<le> n * 10 + digitOf c" "n \<le> n * 10 + digitOf c"
    using digitOf_nonneg [of c] by simp_all
  with Cons.IH [OF v] show ?case by simp
qed

lemma parseUint_digitsValue:
  "digitsValue n cs = Some v \<Longrightarrow> 0 \<le> n \<Longrightarrow> v \<le> 2 ^ 64 - 1 \<Longrightarrow> parseUint n cs = Inr v"
proof (induction cs arbitrary: n)
  case Nil
  then show ?case by simp
next
  case (Cons c cs)
  from Cons.prems have d: "isDigit c" and v: "digitsValue (n * 10 + digitOf c) cs = Some v"
    by (auto split: if_splits)
  from d Cons.prems(2) have n1: "0 \<le> n * 10 + digitOf c"
    using digitOf_nonneg [of c] by simp
  from digitsValue_mono [OF v n1] Cons.prems(3) have "n * 10 + digitOf c \<le> 2 ^ 64 - 1"
    by simp
  with d Cons.IH [OF v n1 Cons.prems(3)] show ?case by simp
qed

lemma digitsValue_parseUint: "parseUint n cs = Inr v \<Longrightarrow> digitsValue n cs = Some v"
  by (induction cs arbitrary: n) (auto split: if_splits)

lemma parseUint_bound: "parseUint n cs = Inr v \<Longrightarrow> n \<le> 2 ^ 64 - 1 \<Longrightarrow> v \<le> 2 ^ 64 - 1"
  by (induction cs arbitrary: n) (auto split: if_splits)

lemma Atoi_negative:
  "cs \<noteq> [] \<Longrightarrow> parseUint 0 cs = Inr un \<Longrightarrow>
     Atoi (CHR ''-'' # cs) = (if un > 2 ^ 63 then Inl ErrRange else Inr (- un))"
  by (simp add: Atoi_def)

lemma Atoi_positive:
  "c \<noteq> CHR ''-'' \<Longrightarrow> body = (if c = CHR ''+'' then cs else c # cs) \<Longrightarrow> body \<noteq> [] \<Longrightarrow>
     parseUint 0 body = Inr un \<Longrightarrow>
     Atoi (c # cs) = (if un \<ge> 2 ^ 63 then Inl ErrRange else Inr un)"
  by (simp add: Atoi_def del: parseUint.simps)

lemma Atoi_body:
  "Atoi (c # cs) = Inr n \<Longrightarrow> body = (if c = CHR ''-'' \<or> c = CHR ''+'' then cs else c # cs) \<Longrightarrow>
     body \<noteq> [] \<and> (\<exists>un. parseUint 0 body = Inr un)"
  by (cases "parseUint 0 body")
     (auto simp: Atoi_def Let_def simp del: parseUint.simps split: if_splits)

lemma decimalInteger_negative:
  "decimalInteger (CHR ''-'' # cs) = (if cs = [] then None else map_option uminus (digitsValue 0 cs))"
  by (simp add: decimalInteger_def)

lemma decimalInteger_positive:
  "c \<noteq> CHR ''-'' \<Longrightarrow>
     decimalInteger (c # cs) =
       (if c = CHR ''+'' then (if cs = [] then None else digitsValue 0 cs)
        else digitsValue 0 (c # cs))"
  by (simp add: decimalInteger_def del: digitsValue.simps)

lemma Atoi_accepts:
  assumes "decimalInteger s = Some n" "- (2 ^ 63) \<le> n" "n < 2 ^ 63"
  shows "Atoi s = Inr n"
proof (cases s)
  case Nil
  with assms show ?thesis by (simp add: decimalInteger_def)
next
  case (Cons c cs)
  show ?thesis
  proof (cases "c = CHR ''-''")
    case True
    with Cons assms(1) obtain v where v: "cs \<noteq> []" "digitsValue 0 cs = Some v" "n = - v"
      by (auto simp: decimalInteger_negative split: if_splits)
    with assms(2) have "v \<le> 2 ^ 64 - 1" by simp
    with v have "parseUint 0 cs = Inr v" by (simp add: parseUint_digitsValue)
    from Atoi_negative [OF v(1) this] Cons True v(3) assms(2) show ?thesis by simp
  next
    case False
    define body where "body = (if c = CHR ''+'' then cs else c # cs)"
    from Cons False assms(1) have b: "body \<noteq> []" "digitsValue 0 body = Some n"
      by (auto simp: decimalInteger_positive body_def simp del: digitsValue.simps
          split: if_splits)
    then have "0 \<le> n" using digitsValue_mono [of 0 body n] by simp
    with b assms(3) have "parseUint 0 body = Inr n" by (simp add: parseUint_digitsValue)
    from Atoi_positive [OF False body_def b(1) this] Cons assms(3) show ?thesis by simp
  qed
qed

lemma Atoi_sound:
  assumes "Atoi s = Inr n"
  shows "decimalInteger s = Some n \<and> - (2 ^ 63) \<le> n \<and> n < 2 ^ 63"
proof (cases s)
  case Nil
  with assms show ?thesis by (simp add: Atoi_def)
next
  case (Cons c cs)
  define body where "body = (if c = CHR ''-'' \<or> c = CHR ''+'' then cs else c # cs)"
  from assms Cons have a: "Atoi (c # cs) = Inr n" by simp
  from Atoi_body [OF a body_def] obtain un where b: "body \<noteq> []" and un: "parseUint 0 body = Inr un"
    by blast
  from un have dv: "digitsValue 0 body = Some un" by (rule digitsValue_parseUint)
  then have pos: "0 \<le> un" using digitsValue_mono [of 0 body un] by simp
  show ?thesis
  proof (cases "c = CHR ''-''")
    case True
    with b un dv have "cs \<noteq> []" "parseUint 0 cs = Inr un" "digitsValue 0 cs = Some un"
      by (simp_all add: body_def)
    from Atoi_negative [OF this(1,2)] a True pos this(1,3) Cons show ?thesis
      by (auto simp: decimalInteger_negative split: if_splits)
  next
    case False
    then have body: "body = (if c = CHR ''+'' then cs else c # cs)" by (simp add: body_def)
    from Atoi_positive [OF False body b un] a pos have n: "n = un" "un < 2 ^ 63"
      by (auto split: if_splits)
    from dv b body False have "decimalInteger (c # cs) = Some un"
      by (auto simp: decimalInteger_positive simp del: digitsValue.simps)
    with n pos Cons show ?thesis by simp
  qed
qed

lemma Atoi_iff: "Atoi s = Inr n \<longleftrightarrow> decimalInteger s = Some n \<and> - (2 ^ 63) \<le> n \<and> n < 2 ^ 63"
  using Atoi_accepts Atoi_sound by blast

text \<open>
  Scenario C of the specification: a port string that is not a number reads as port 0 and
  leaves one log record.
\<close>

lemma uint32Metadata_not_a_number:
  "uint32Metadata [fieldDataplaneAdminPort \<mapsto> StringValue ''not-a-number''] fieldDataplaneAdminPort
     = (0, [\<lparr>logMsg = ''invalid value in dataplane metadata'',
              logField = fieldDataplaneAdminPort\<rparr>])"
  by (simp add: uint32Metadata_def Atoi_not_a_number)

text \<open>
  C10. In port decoding, a value string that \<open>strconv.Atoi\<close> parses to the integer \<open>n\<close> is
  accepted, whatever the size of \<open>n\<close>, and the port is \<open>n\<close> reduced modulo \<open>2 ^ 32\<close>, with
  no log record; the port degrades to 0, with one log record, only when \<open>Atoi\<close> fails.
  \<open>Atoi\<close> parses exactly the decimal integers that fit a 64-bit \<open>int\<close>.
\<close>

theorem uint32Metadata_reduces_modulo:
  "xds field = Some (StringValue s) \<Longrightarrow>
     (case Atoi s of
        Inr n \<Rightarrow>
          uint (fst (uint32Metadata xds field)) = n mod 2 ^ 32 \<and>
          snd (uint32Metadata xds field) = []
      | Inl err \<Rightarrow>
          fst (uint32Metadata xds field) = 0 \<and> length (snd (uint32Metadata xds field)) = 1) \<and>
     (Atoi s = Inr k \<longleftrightarrow> decimalInteger s = Some k \<and> - (2 ^ 63) \<le> k \<and> k < 2 ^ 63)"
proof
  assume "xds field = Some (StringValue s)"
  then show "case Atoi s of
               Inr n \<Rightarrow>
                 uint (fst (uint32Metadata xds field)) = n mod 2 ^ 32 \<and>
                 snd (uint32Metadata xds field) = []
             | Inl err \<Rightarrow>
                 fst (uint32Metadata xds field) = 0 \<and>
                 length (snd (uint32Metadata xds field)) = 1"
    by (simp add: uint32Metadata_def uint_word_of_int split: sum.splits)
next
  show "Atoi s = Inr k \<longleftrightarrow> decimalInteger s = Some k \<and> - (2 ^ 63) \<le> k \<and> k < 2 ^ 63"
    by (rule Atoi_iff)
qed

theorem uint32Metadata_reduces_modulo_witness:
  "uint (fst (uint32Metadata [fieldDataplaneDNSPort \<mapsto> StringValue ''-1'']
            fieldDataplaneDNSPort)) = 4294967295 \<and>
   uint (fst (uint32Metadata [fieldDataplaneDNSPort \<mapsto> StringValue ''4294967296'']
            fieldDataplaneDNSPort)) = 0"
  using uint32Metadata_reduces_modulo
          [of "[fieldDataplaneDNSPort \<mapsto> StringValue ''-1'']" fieldDataplaneDNSPort "''-1''"]
        uint32Metadata_reduces_modulo
          [of "[fieldDataplaneDNSPort \<mapsto> StringValue ''4294967296'']" fieldDataplaneDNSPort
              "''4294967296''"]
  by (simp add: Atoi_minus_one Atoi_two_to_32 uint_word_of_int)

text \<open>Every accessor is nil-safe: on a nil record it returns the zero value of its field.\<close>

lemma accessors_on_nil:
  "GetDataplaneToken None = []"
  "GetDataplaneResource None = None"
  "GetZoneIngressResource None = None"
  "GetProxyType None = DataplaneProxyType"
  "GetAdminPort None = 0"
  "GetDNSPort None = 0"
  "GetEmptyDNSPort None = 0"
  "GetDynamicMetadata None key = []"
  "GetVersion None = None"
  by (simp_all add: GetDataplaneToken_def GetDataplaneResource_def GetZoneIngressResource_def
      GetProxyType_def GetAdminPort_def GetDNSPort_def GetEmptyDNSPort_def
      GetDynamicMetadata_def GetVersion_def)

text \<open>
  The decoder returns a record for a nil bag, and for every bag whose embedded resource
  is absent or unmarshals to some resource.
\<close>

lemma decode_nil: "DataplaneMetadataFromXdsMetadata um tt None = Inr (zeroDataplaneMetadata, [])"
  by (simp add: DataplaneMetadataFromXdsMetadata_def)

lemma decodeResource_returns:
  assumes "xds fieldDataplaneDataplaneResource = None \<or> (\<forall>b. fst (um b) \<noteq> None)"
  shows "\<exists>r. decodeResource um xds m = Inr r"
proof (cases "xds fieldDataplaneDataplaneResource")
  case None
  then show ?thesis by (simp add: decodeResource_def)
next
  case (Some v)
  with assms have "fst (um (GetStringValue (Some v))) \<noteq> None" by auto
  then obtain r err where "um (GetStringValue (Some v)) = (Some r, err)"
    by (cases "um (GetStringValue (Some v))") auto
  with Some show ?thesis
    by (cases r) (simp_all add: decodeResource_def Let_def)
qed

lemma decode_returns:
  assumes "xds fieldDataplaneDataplaneResource = None \<or> (\<forall>b. fst (um b) \<noteq> None)"
  shows "\<exists>r. DataplaneMetadataFromXdsMetadata um tt (Some xds) = Inr r"
proof -
  have "\<And>m. \<exists>r. decodeResource um xds m = Inr r"
    using assms by (rule decodeResource_returns)
  then show ?thesis
    unfolding DataplaneMetadataFromXdsMetadata_def Let_def
    by (auto split: sum.splits prod.splits) (metis sum.distinct(1))
qed

text \<open>
  C1. The decoder is meant to return a usable record for every bag. It does not when the
  embedded resource value is malformed: \<open>UnmarshallToCore\<close> then returns a nil resource
  with its error, the error is logged, and the default arm of the type switch calls
  \<open>Descriptor\<close> on the nil resource.
\<close>

theorem decode_malformed_resource_panics:
  "DataplaneMetadataFromXdsMetadata
     (\<lambda>b. (None, Some ''invalid character''))
     (\<lambda>sv. (\<lparr>kumaDp = [], envoy = [], dependencies = Map.empty\<rparr>, None))
     (Some [fieldDataplaneDataplaneResource \<mapsto> StringValue ''not-json''])
   = Inl NilDereference"
  by (simp add: DataplaneMetadataFromXdsMetadata_def decodeResource_def Let_def
      fieldDataplaneDataplaneResource_def fieldDataplaneToken_def fieldDataplaneProxyType_def)

section \<open>Properties of the TLS context synthesizer\<close>

text \<open>
  C2. With mTLS disabled in the mesh, downstream and upstream synthesis both return the
  pair of a nil context and a nil error: no context object and no error.
\<close>

theorem mtls_disabled_no_context:
  "\<not> MTLSEnabled ctx \<Longrightarrow>
     CreateDownstreamTlsContext ctx = (None, None) \<and>
     CreateUpstreamTlsContext ctx upstreamService sni = (None, None)"
  by (simp add: CreateDownstreamTlsContext_def CreateUpstreamTlsContext_def)

theorem mtls_disabled_no_context_witness:
  "\<not> MTLSEnabled \<lparr>MTLSEnabled = False, MeshName = ''default''\<rparr> \<and>
   CreateDownstreamTlsContext \<lparr>MTLSEnabled = False, MeshName = ''default''\<rparr> = (None, None) \<and>
   CreateUpstreamTlsContext \<lparr>MTLSEnabled = False, MeshName = ''default''\<rparr> ''backend'' ''sni''
     = (None, None)"
  using mtls_disabled_no_context
          [of "\<lparr>MTLSEnabled = False, MeshName = ''default''\<rparr>" "''backend''" "''sni''"]
  by simp

lemma upstreamMatchers_enabled:
  "MTLSEnabled ctx \<Longrightarrow>
     upstreamMatchers (CreateUpstreamTlsContext ctx s sni) =
       Some [if s = ''*'' then MeshSpiffeIDPrefixMatcher (MeshName ctx)
             else ServiceSpiffeIDMatcher (MeshName ctx) s]"
  by (simp add: upstreamMatchers_def CreateUpstreamTlsContext_def createCommonTlsContext_def
      sanMatchers_def Let_def)

lemma downstreamMatchers_enabled:
  "MTLSEnabled ctx \<Longrightarrow>
     downstreamMatchers (CreateDownstreamTlsContext ctx) =
       Some [MeshSpiffeIDPrefixMatcher (MeshName ctx)]"
  by (simp add: downstreamMatchers_def CreateDownstreamTlsContext_def createCommonTlsContext_def
      sanMatchers_def Let_def)

lemma ServiceSpiffeID_inj: "ServiceSpiffeID mesh s1 = ServiceSpiffeID mesh s2 \<Longrightarrow> s1 = s2"
  by (simp add: ServiceSpiffeID_def)

text \<open>
  C5. With mTLS enabled, upstream synthesis for the wildcard target verifies the peer
  against the mesh-wide identity-prefix matcher, the same one downstream synthesis uses;
  for a concrete service it verifies against the exact identity derived from the mesh name
  and the service name; and two distinct targets in one mesh never get equal matchers.
\<close>

theorem upstream_matcher_by_target:
  assumes "MTLSEnabled ctx"
  shows "upstreamMatchers (CreateUpstreamTlsContext ctx ''*'' sni) =
           Some [MeshSpiffeIDPrefixMatcher (MeshName ctx)] \<and>
         upstreamMatchers (CreateUpstreamTlsContext ctx ''*'' sni) =
           downstreamMatchers (CreateDownstreamTlsContext ctx) \<and>
         (service \<noteq> ''*'' \<longrightarrow>
            upstreamMatchers (CreateUpstreamTlsContext ctx service sni) =
              Some [ServiceSpiffeIDMatcher (MeshName ctx) service]) \<and>
         (s1 \<noteq> s2 \<longrightarrow>
            upstreamMatchers (CreateUpstreamTlsContext ctx s1 sni1) \<noteq>
            upstreamMatchers (CreateUpstreamTlsContext ctx s2 sni2))"
  using assms
  by (auto simp: upstreamMatchers_enabled downstreamMatchers_enabled
      MeshSpiffeIDPrefixMatcher_def ServiceSpiffeIDMatcher_def dest: ServiceSpiffeID_inj)

theorem upstream_matcher_by_target_witness:
  "upstreamMatchers
     (CreateUpstreamTlsContext \<lparr>MTLSEnabled = True, MeshName = ''default''\<rparr> ''*'' ''sni'') =
     Some [StringMatcher_Prefix ''spiffe://default/''] \<and>
   upstreamMatchers
     (CreateUpstreamTlsContext \<lparr>MTLSEnabled = True, MeshName = ''default''\<rparr> ''web'' ''sni'') =
     Some [StringMatcher_Exact ''spiffe://default/web''] \<and>
   upstreamMatchers
     (CreateUpstreamTlsContext \<lparr>MTLSEnabled = True, MeshName = ''default''\<rparr> ''web'' ''a'') \<noteq>
   upstreamMatchers
     (CreateUpstreamTlsContext \<lparr>MTLSEnabled = True, MeshName = ''default''\<rparr> ''web-api'' ''b'')"
  using upstream_matcher_by_target
          [of "\<lparr>MTLSEnabled = True, MeshName = ''default''\<rparr>" "''sni''" "''web''"
              "''web''" "''web-api''" "''a''" "''b''"]
  by (simp add: MeshSpiffeIDPrefixMatcher_def ServiceSpiffeIDMatcher_def
      MeshSpiffeIDPrefix_def ServiceSpiffeID_def)

section \<open>Properties of method matching\<close>

lemma foldl_addHeader_keeps:
  "Method (foldl addHeader m hs) = Method m \<and>
   ExactPath (foldl addHeader m hs) = ExactPath m \<and>
   PrefixPath (foldl addHeader m hs) = PrefixPath m"
  by (induction hs arbitrary: m) (auto simp: addHeader_def split: HeaderMatchType.splits)

lemma foldl_addQuery_keeps:
  "Method (foldl addQuery m qs) = Method m \<and>
   ExactPath (foldl addQuery m qs) = ExactPath m \<and>
   PrefixPath (foldl addQuery m qs) = PrefixPath m"
  by (induction qs arbitrary: m) (auto simp: addQuery_def split: QueryMatchType.splits)

lemma setPath_Method: "Method (setPath m p) = Method m"
  by (simp add: setPath_def split: option.splits PathMatchType.splits)

lemma Method_makeRouteMatch: "Method (makeRouteMatch rm) = names (GetMethod rm)"
  by (cases "GetMethod rm")
     (simp_all add: makeRouteMatch_def Let_def foldl_addQuery_keeps foldl_addHeader_keeps
       setPath_Method zeroMatch_def)

lemma names_verbs: "m \<noteq> Match_NONE \<Longrightarrow> names m \<in> set verbs"
  by (cases m) (simp_all add: verbs_def)

lemma verbs_by_names:
  "verbs = map names [Match_GET, Match_POST, Match_PUT, Match_PATCH, Match_DELETE, Match_HEAD,
                      Match_OPTIONS, Match_CONNECT, Match_TRACE]"
  by (simp add: verbs_def)

lemma verbs_names:
  assumes "v \<in> set verbs"
  shows "v \<in> names ` (UNIV - {Match_NONE})"
proof -
  from assms obtain m where
    m: "m \<in> set [Match_GET, Match_POST, Match_PUT, Match_PATCH, Match_DELETE, Match_HEAD,
                  Match_OPTIONS, Match_CONNECT, Match_TRACE]" and v: "v = names m"
    unfolding verbs_by_names set_map by blast
  from m have "m \<noteq> Match_NONE" by auto
  with v show ?thesis by blast
qed

text \<open>
  C9. Method matching is against the nine verbs. An entry built from a match that declares
  the method \<open>M\<close> matches a request exactly when the request's method is \<open>M\<close>; an entry
  built from a match that declares the sentinel \<open>NONE\<close> matches all nine verbs.
\<close>

theorem method_matching:
  "(GetMethod rm \<noteq> Match_NONE \<longrightarrow>
      (\<forall>r. methodMatches (makeRouteMatch rm) r \<longleftrightarrow> r = names (GetMethod rm))) \<and>
   (GetMethod rm = Match_NONE \<longrightarrow> (\<forall>r \<in> set verbs. methodMatches (makeRouteMatch rm) r)) \<and>
   names ` (UNIV - {Match_NONE}) = set verbs \<and> length verbs = 9 \<and> distinct verbs"
proof (intro conjI impI allI ballI)
  fix r assume "GetMethod rm \<noteq> Match_NONE"
  then show "methodMatches (makeRouteMatch rm) r \<longleftrightarrow> r = names (GetMethod rm)"
    using names_verbs [of "GetMethod rm"]
    by (cases "GetMethod rm") (auto simp: methodMatches_def Method_makeRouteMatch)
next
  fix r assume "GetMethod rm = Match_NONE" "r \<in> set verbs"
  then show "methodMatches (makeRouteMatch rm) r"
    by (simp add: methodMatches_def Method_makeRouteMatch)
next
  show "names ` (UNIV - {Match_NONE}) = set verbs"
    using names_verbs verbs_names by blast
next
  show "length verbs = 9" by (simp add: verbs_def)
next
  show "distinct verbs" by (simp add: verbs_def)
qed

theorem method_matching_witness:
  "methodMatches
     (makeRouteMatch \<lparr>GetPath = None, GetMethod = Match_GET, GetHeaders = [],
                      GetQueryParameters = []\<rparr>) ''GET'' \<and>
   \<not> methodMatches
     (makeRouteMatch \<lparr>GetPath = None, GetMethod = Match_GET, GetHeaders = [],
                      GetQueryParameters = []\<rparr>) ''POST'' \<and>
   methodMatches
     (makeRouteMatch \<lparr>GetPath = None, GetMethod = Match_NONE, GetHeaders = [],
                      GetQueryParameters = []\<rparr>) ''TRACE''"
  using method_matching
          [of "\<lparr>GetPath = None, GetMethod = Match_GET, GetHeaders = [],
                GetQueryParameters = []\<rparr>"]
        method_matching
          [of "\<lparr>GetPath = None, GetMethod = Match_NONE, GetHeaders = [],
                GetQueryParameters = []\<rparr>"]
  by (simp add: verbs_def)

section \<open>Properties of the route table builder\<close>

subsection \<open>The order of a range over a map\<close>

lemma mset_rangeOrder: "mset (rangeOrder cs xs) = mset xs"
proof (induction cs arbitrary: xs)
  case Nil
  show ?case by simp
next
  case (Cons c cs)
  show ?case
  proof (cases "xs = []")
    case True
    then show ?thesis by simp
  next
    case False
    define i where "i = c mod length xs"
    have i: "i < length xs" using False by (simp add: i_def)
    have "mset xs = mset (take i xs @ xs ! i # drop (Suc i) xs)"
      using id_take_nth_drop [OF i] by simp
    then have "mset xs = add_mset (xs ! i) (mset (take i xs @ drop (Suc i) xs))"
      by simp
    moreover have "rangeOrder (c # cs) xs = xs ! i # rangeOrder cs (take i xs @ drop (Suc i) xs)"
      using False by (simp add: i_def Let_def)
    ultimately show ?thesis
      using Cons.IH [of "take i xs @ drop (Suc i) xs"] by simp
  qed
qed

text \<open>Every order of the elements is the order of some list of choices.\<close>

lemma rangeOrder_complete: "mset ys = mset xs \<Longrightarrow> \<exists>cs. rangeOrder cs xs = ys"
proof (induction ys arbitrary: xs)
  case Nil
  then have "xs = []" by simp
  then have "rangeOrder [] xs = []" by simp
  then show ?case by blast
next
  case (Cons y ys)
  from Cons.prems have "y \<in> set xs" by (metis list.set_intros(1) mset_eq_setD)
  then obtain i where i: "i < length xs" and y: "xs ! i = y"
    by (auto simp: in_set_conv_nth)
  have xs: "xs = take i xs @ y # drop (Suc i) xs"
    using id_take_nth_drop [OF i] y by simp
  have "mset xs = add_mset y (mset (take i xs @ drop (Suc i) xs))"
    by (subst xs) simp
  with Cons.prems have "mset ys = mset (take i xs @ drop (Suc i) xs)" by simp
  from Cons.IH [OF this] obtain cs where cs: "rangeOrder cs (take i xs @ drop (Suc i) xs) = ys"
    by blast
  have "xs \<noteq> []" using i by auto
  then have "rangeOrder (i # cs) xs = y # ys"
    using i y cs by (simp add: Let_def)
  then show ?case by blast
qed

lemma set_rangeOrder: "set (rangeOrder cs xs) = set xs"
  using mset_rangeOrder [of cs xs] by (rule mset_eq_setD)

lemma length_filter_rangeOrder:
  "length (filter P (map f (rangeOrder cs xs))) = length (filter P (map f xs))"
proof -
  have "mset (filter P (map f (rangeOrder cs xs))) = mset (filter P (map f xs))"
    by (simp add: mset_rangeOrder)
  then show ?thesis by (rule mset_eq_length)
qed

lemma rangeOrder_Nil: "rangeOrder cs [] = []"
  by (cases cs) simp_all

lemma rangeOrder_singleton: "rangeOrder cs [x] = [x]"
  by (cases cs) (simp_all add: rangeOrder_Nil)

subsection \<open>Trimming the separators\<close>

lemma TrimRight_no_trailing:
  "TrimRight p ''/'' = [] \<or> last (TrimRight p ''/'') \<noteq> CHR ''/''"
proof (cases "dropWhile (\<lambda>c. c \<in> set ''/'') (rev p)")
  case Nil
  then show ?thesis by (simp add: TrimRight_def)
next
  case (Cons c cs)
  then have "\<not> c \<in> set ''/''"
    by (metis hd_dropWhile list.distinct(1) list.sel(1))
  with Cons show ?thesis by (simp add: TrimRight_def)
qed

lemma endsInOneSeparator_rewritten: "endsInOneSeparator (TrimRight p ''/'' @ ''/'')"
  using TrimRight_no_trailing [of p] by (auto simp: endsInOneSeparator_def)

subsection \<open>What makeRouteMatch sets\<close>

lemma ExactPath_makeRouteMatch:
  "ExactPath (makeRouteMatch m) = ExactPath (setPath zeroMatch (GetPath m))"
  by (simp add: makeRouteMatch_def Let_def foldl_addQuery_keeps foldl_addHeader_keeps)

lemma PrefixPath_makeRouteMatch:
  "PrefixPath (makeRouteMatch m) = PrefixPath (setPath zeroMatch (GetPath m))"
  by (simp add: makeRouteMatch_def Let_def foldl_addQuery_keeps foldl_addHeader_keeps)

lemma makeRouteMatch_one_kind:
  "ExactPath (makeRouteMatch m) = [] \<or> PrefixPath (makeRouteMatch m) = []"
  by (simp add: ExactPath_makeRouteMatch PrefixPath_makeRouteMatch setPath_def zeroMatch_def
      split: option.splits PathMatchType.splits)

lemma makeRouteMatch_prefix:
  "GetPath m = Some \<lparr>pathMatch = Path_PREFIX, pathValue = p\<rparr> \<Longrightarrow>
     ExactPath (makeRouteMatch m) = [] \<and> PrefixPath (makeRouteMatch m) = p"
  by (simp add: ExactPath_makeRouteMatch PrefixPath_makeRouteMatch setPath_def zeroMatch_def)

lemma makeRouteMatch_exact:
  "GetPath m = Some \<lparr>pathMatch = Path_EXACT, pathValue = p\<rparr> \<Longrightarrow>
     ExactPath (makeRouteMatch m) = p \<and> PrefixPath (makeRouteMatch m) = []"
  by (simp add: ExactPath_makeRouteMatch PrefixPath_makeRouteMatch setPath_def zeroMatch_def)

lemma ruleEntries_one_kind:
  "e \<in> set (ruleEntries rule) \<Longrightarrow> ExactPath (Match e) = [] \<or> PrefixPath (Match e) = []"
proof -
  assume "e \<in> set (ruleEntries rule)"
  then obtain m where "Match e = makeRouteMatch m" by (auto simp: ruleEntries_def)
  then show ?thesis using makeRouteMatch_one_kind [of m] by simp
qed

lemma denormalize_one_kind:
  "e \<in> set (denormalize A) \<Longrightarrow> ExactPath (Match e) = [] \<or> PrefixPath (Match e) = []"
proof -
  assume "e \<in> set (denormalize A)"
  then obtain rule where "e \<in> set (ruleEntries rule)" by (auto simp: denormalize_def)
  then show ?thesis by (rule ruleEntries_one_kind)
qed

lemma in_denormalize:
  "route \<in> set A \<Longrightarrow> rule \<in> set (GetRules (confHttp route)) \<Longrightarrow> m \<in> set (GetMatches rule) \<Longrightarrow>
     (makeRouteEntry rule)\<lparr>Match := makeRouteMatch m\<rparr> \<in> set (denormalize A)"
  by (auto simp: denormalize_def ruleEntries_def)

subsection \<open>The first loop\<close>

lemma foldl_concat: "foldl f a (concat xss) = foldl (foldl f) a xss"
  by (induction xss arbitrary: a) simp_all

lemma addRule_fileEntry: "addRule st rule = foldl fileEntry st (ruleEntries rule)"
proof -
  have "addMatch entry = (\<lambda>st m. fileEntry st (entry\<lparr>Match := makeRouteMatch m\<rparr>))" for entry
    by (intro ext) (simp add: addMatch_def)
  then show ?thesis by (simp add: addRule_def ruleEntries_def foldl_map)
qed

lemma addRoute_fileEntry:
  "addRoute st route = foldl fileEntry st (concat (map ruleEntries (GetRules (confHttp route))))"
proof -
  have "foldl addRule st rs = foldl fileEntry st (concat (map ruleEntries rs))" for rs
    by (induction rs arbitrary: st) (simp_all add: addRule_fileEntry)
  then show ?thesis by (simp add: addRoute_def)
qed

lemma foldl_addRoute: "foldl addRoute st A = foldl fileEntry st (denormalize A)"
  by (induction A arbitrary: st) (simp_all add: denormalize_def addRoute_fileEntry)

lemma fileEntry_step:
  "fileEntry (tbl, ex, pr) e = (tbl @ filter isOther [e], fileExact ex e, filePrefix pr e)"
  by (simp add: fileEntry_def fileExact_def filePrefix_def isOther_def)

lemma foldl_fileEntry:
  "foldl fileEntry (tbl, ex, pr) es =
     (tbl @ filter isOther es, foldl fileExact ex es, foldl filePrefix pr es)"
proof (induction es arbitrary: tbl ex pr)
  case Nil
  show ?case by simp
next
  case (Cons e es)
  have "foldl fileEntry (tbl, ex, pr) (e # es) =
          foldl fileEntry (tbl @ filter isOther [e], fileExact ex e, filePrefix pr e) es"
    by (simp only: foldl_Cons fileEntry_step)
  also have "\<dots> = ((tbl @ filter isOther [e]) @ filter isOther es,
                     foldl fileExact (fileExact ex e) es, foldl filePrefix (filePrefix pr e) es)"
    by (rule Cons.IH)
  finally show ?case by simp
qed

subsection \<open>The prefix-expansion loop\<close>

lemma expandPrefix_step:
  "expandPrefix (tbl, ex) e = (tbl @ [rewritePrefix e], synthExact ex e)"
  by (simp add: expandPrefix_def rewritePrefix_def synthExact_def setPrefixPath_def Let_def)

lemma foldl_expandPrefix:
  "foldl expandPrefix (tbl, ex) ps = (tbl @ map rewritePrefix ps, foldl synthExact ex ps)"
  by (induction ps arbitrary: tbl ex) (simp_all add: expandPrefix_step)

subsection \<open>The table after a call\<close>

lemma appended_Nil: "appended cp ce [] = []"
  by (simp add: appended_def prefixPass_def exactFinal_def rangeOrder_Nil)

lemma GenerateHost_eq:
  "GenerateHost mh cp ce info =
     ((None, None),
      info\<lparr>infoRouteTable :=
        (infoRouteTable info)\<lparr>Entries :=
          Entries (infoRouteTable info) @ appended cp ce (denormalize (accepted mh info))\<rparr>\<rparr>)"
proof (cases "accepted mh info = []")
  case True
  then have "denormalize (accepted mh info) = []" by (simp add: denormalize_def)
  with True show ?thesis
    unfolding GenerateHost_def Let_def accepted_def [symmetric]
    by (simp add: appended_Nil)
next
  case False
  then show ?thesis
    unfolding GenerateHost_def Let_def accepted_def [symmetric]
    by (simp add: foldl_addRoute foldl_fileEntry foldl_expandPrefix appended_def
        prefixPass_def exactFinal_def)
qed

lemma produced_eq: "produced mh cp ce info = appended cp ce (denormalize (accepted mh info))"
  by (simp add: produced_def GenerateHost_eq)

subsection \<open>Well-formed accumulators\<close>

lemma exactInv_Nil: "exactInv []"
  by (simp add: exactInv_def)

lemma prefixInv_Nil: "prefixInv []"
  by (simp add: prefixInv_def)

lemma exactInv_update:
  "exactInv ex \<Longrightarrow> ExactPath (Match e) = k \<Longrightarrow> k \<noteq> [] \<Longrightarrow> PrefixPath (Match e) = [] \<Longrightarrow>
     exactInv (AList.update k e ex)"
  by (simp add: exactInv_def distinct_update update_conv')

lemma prefixInv_update:
  "prefixInv pr \<Longrightarrow> PrefixPath (Match e) = k \<Longrightarrow> k \<noteq> [] \<Longrightarrow> ExactPath (Match e) = [] \<Longrightarrow>
     prefixInv (AList.update k e pr)"
  by (simp add: prefixInv_def distinct_update update_conv')

lemma exactInv_fileExact:
  "exactInv ex \<Longrightarrow> ExactPath (Match e) = [] \<or> PrefixPath (Match e) = [] \<Longrightarrow>
     exactInv (fileExact ex e)"
  by (auto simp: fileExact_def intro: exactInv_update)

lemma exactInv_foldl_fileExact:
  "exactInv ex \<Longrightarrow> \<forall>e \<in> set es. ExactPath (Match e) = [] \<or> PrefixPath (Match e) = [] \<Longrightarrow>
     exactInv (foldl fileExact ex es)"
  by (induction es arbitrary: ex) (simp_all add: exactInv_fileExact)

lemma prefixInv_filePrefix: "prefixInv pr \<Longrightarrow> prefixInv (filePrefix pr e)"
  by (auto simp: filePrefix_def intro: prefixInv_update)

lemma prefixInv_foldl_filePrefix: "prefixInv pr \<Longrightarrow> prefixInv (foldl filePrefix pr es)"
  by (induction es arbitrary: pr) (simp_all add: prefixInv_filePrefix)

lemma exactInv_synthExact: "exactInv ex \<Longrightarrow> exactInv (synthExact ex e)"
  by (auto simp: synthExact_def Let_def intro: exactInv_update)

lemma exactInv_foldl_synthExact: "exactInv ex \<Longrightarrow> exactInv (foldl synthExact ex ps)"
  by (induction ps arbitrary: ex) (simp_all add: exactInv_synthExact)

lemma exactInv_exactFinal:
  "\<forall>e \<in> set es. ExactPath (Match e) = [] \<or> PrefixPath (Match e) = [] \<Longrightarrow>
     exactInv (exactFinal cp es)"
  unfolding exactFinal_def
  by (intro exactInv_foldl_synthExact exactInv_foldl_fileExact exactInv_Nil)

lemma exactInv_entry:
  "exactInv ex \<Longrightarrow> (k, e) \<in> set ex \<Longrightarrow>
     ExactPath (Match e) = k \<and> k \<noteq> [] \<and> PrefixPath (Match e) = []"
  by (simp add: exactInv_def)

lemma prefixInv_entry:
  "prefixInv pr \<Longrightarrow> (k, e) \<in> set pr \<Longrightarrow>
     PrefixPath (Match e) = k \<and> k \<noteq> [] \<and> ExactPath (Match e) = []"
  by (simp add: prefixInv_def)

subsection \<open>The keys of the accumulators\<close>

lemma keys_fileExact:
  "fst ` set (fileExact ex e) =
     fst ` set ex \<union> (if ExactPath (Match e) \<noteq> [] then {ExactPath (Match e)} else {})"
  by (simp add: fileExact_def dom_update)

lemma keys_foldl_fileExact:
  "fst ` set (foldl fileExact ex es) =
     fst ` set ex \<union> {ExactPath (Match e) |e. e \<in> set es \<and> ExactPath (Match e) \<noteq> []}"
proof (induction es arbitrary: ex)
  case Nil
  show ?case by simp
next
  case (Cons d es)
  show ?case
    unfolding foldl_Cons Cons.IH keys_fileExact by auto
qed

lemma keys_filePrefix:
  "fst ` set (filePrefix pr e) =
     fst ` set pr \<union> (if ExactPath (Match e) = [] \<and> PrefixPath (Match e) \<noteq> []
                       then {PrefixPath (Match e)} else {})"
  by (simp add: filePrefix_def dom_update)

lemma keys_foldl_filePrefix:
  "fst ` set (foldl filePrefix pr es) =
     fst ` set pr \<union>
     {PrefixPath (Match e) |e. e \<in> set es \<and> ExactPath (Match e) = [] \<and> PrefixPath (Match e) \<noteq> []}"
proof (induction es arbitrary: pr)
  case Nil
  show ?case by simp
next
  case (Cons d es)
  show ?case
    unfolding foldl_Cons Cons.IH keys_filePrefix by auto
qed

lemma keys_synthExact:
  "fst ` set (synthExact ex e) =
     fst ` set ex \<union> ({TrimRight (PrefixPath (Match e)) ''/''} - {[]})"
proof (cases "TrimRight (PrefixPath (Match e)) ''/'' \<noteq> [] \<and>
              map_of ex (TrimRight (PrefixPath (Match e)) ''/'') = None")
  case True
  then show ?thesis by (auto simp: synthExact_def Let_def dom_update)
next
  case False
  then have "TrimRight (PrefixPath (Match e)) ''/'' = [] \<or>
             TrimRight (PrefixPath (Match e)) ''/'' \<in> fst ` set ex"
    by (auto simp: map_of_eq_None_iff)
  with False show ?thesis by (auto simp: synthExact_def Let_def)
qed

lemma keys_foldl_synthExact:
  "fst ` set (foldl synthExact ex ps) =
     fst ` set ex \<union> ({TrimRight (PrefixPath (Match e)) ''/'' |e. e \<in> set ps} - {[]})"
proof (induction ps arbitrary: ex)
  case Nil
  show ?case by simp
next
  case (Cons d ps)
  show ?case
    unfolding foldl_Cons Cons.IH keys_synthExact by auto
qed

subsection \<open>The entries of the prefix pass\<close>

lemma prefixPass_entry:
  assumes "e \<in> set (prefixPass cp es)"
  shows "ExactPath (Match e) = [] \<and> PrefixPath (Match e) \<noteq> []"
proof -
  from assms obtain k where "(k, e) \<in> set (foldl filePrefix [] es)"
    by (auto simp: prefixPass_def set_rangeOrder)
  moreover have "prefixInv (foldl filePrefix [] es)"
    by (intro prefixInv_foldl_filePrefix prefixInv_Nil)
  ultimately show ?thesis using prefixInv_entry by blast
qed

lemma prefixPass_has:
  assumes "d \<in> set es" "ExactPath (Match d) = []" "PrefixPath (Match d) \<noteq> []"
  shows "\<exists>e \<in> set (prefixPass cp es). PrefixPath (Match e) = PrefixPath (Match d)"
proof -
  have inv: "prefixInv (foldl filePrefix [] es)"
    by (intro prefixInv_foldl_filePrefix prefixInv_Nil)
  from assms have "PrefixPath (Match d) \<in> fst ` set (foldl filePrefix [] es)"
    unfolding keys_foldl_filePrefix by blast
  then obtain e where e: "(PrefixPath (Match d), e) \<in> set (foldl filePrefix [] es)"
    by auto
  then have "e \<in> set (prefixPass cp es)"
    by (force simp: prefixPass_def set_rangeOrder)
  moreover from prefixInv_entry [OF inv e] have "PrefixPath (Match e) = PrefixPath (Match d)"
    by simp
  ultimately show ?thesis by blast
qed

lemma Match_rewritePrefix:
  "ExactPath (Match (rewritePrefix e)) = ExactPath (Match e)"
  "PrefixPath (Match (rewritePrefix e)) = TrimRight (PrefixPath (Match e)) ''/'' @ ''/''"
  by (simp_all add: rewritePrefix_def setPrefixPath_def)

subsection \<open>The appended entries\<close>

lemma appended_cases:
  assumes "e \<in> set (appended cp ce es)"
  obtains (other) "e \<in> set es" "isOther e"
  | (prefix) d where "d \<in> set (prefixPass cp es)" "e = rewritePrefix d"
  | (exact) k where "(k, e) \<in> set (exactFinal cp es)"
  using assms by (auto simp: appended_def set_rangeOrder)

lemma count_by_key:
  "distinct (map fst ex) \<Longrightarrow> \<forall>(k, e) \<in> set ex. f e = k \<Longrightarrow> x \<in> fst ` set ex \<Longrightarrow>
     length (filter (\<lambda>e. f e = x) (map snd ex)) = 1"
proof (induction ex)
  case Nil
  then show ?case by simp
next
  case (Cons a ex)
  obtain k e where a: "a = (k, e)" by (cases a)
  show ?case
  proof (cases "k = x")
    case True
    with Cons.prems a have "x \<notin> fst ` set ex" by auto
    with Cons.prems(2) have "\<forall>e' \<in> set (map snd ex). f e' \<noteq> x" by force
    then have "filter (\<lambda>e. f e = x) (map snd ex) = []"
      by (simp add: filter_empty_conv)
    moreover from Cons.prems(2) a True have "f e = x" by simp
    ultimately show ?thesis using a by simp
  next
    case False
    with Cons.prems a have "x \<in> fst ` set ex" "f e \<noteq> x" by auto
    with Cons a show ?thesis by simp
  qed
qed

lemma appended_exact_count:
  assumes kinds: "\<forall>e \<in> set es. ExactPath (Match e) = [] \<or> PrefixPath (Match e) = []"
    and d: "d \<in> set es" "ExactPath (Match d) = []"
    and x: "TrimRight (PrefixPath (Match d)) ''/'' = x" "x \<noteq> []"
  shows "length (filter (\<lambda>e. ExactPath (Match e) = x) (appended cp ce es)) = 1"
proof -
  have inv: "exactInv (exactFinal cp es)"
    using kinds by (rule exactInv_exactFinal)
  from x have "PrefixPath (Match d) \<noteq> []" by (auto simp: TrimRight_def)
  with d obtain e where e: "e \<in> set (prefixPass cp es)"
      "PrefixPath (Match e) = PrefixPath (Match d)"
    using prefixPass_has by blast
  from e x have "TrimRight (PrefixPath (Match e)) ''/'' = x" by simp
  with e(1) have "x \<in> {TrimRight (PrefixPath (Match e)) ''/'' |e. e \<in> set (prefixPass cp es)}"
    by blast
  with x(2) have "x \<in> {TrimRight (PrefixPath (Match e)) ''/'' |e. e \<in> set (prefixPass cp es)} - {[]}"
    by simp
  then have key: "x \<in> fst ` set (exactFinal cp es)"
    unfolding exactFinal_def keys_foldl_synthExact by (rule UnI2)
  have "filter (\<lambda>e. ExactPath (Match e) = x) (filter isOther es) = []"
    using x by (auto simp: filter_empty_conv isOther_def)
  moreover have "filter (\<lambda>e. ExactPath (Match e) = x) (map rewritePrefix (prefixPass cp es)) = []"
    using x prefixPass_entry by (auto simp: filter_empty_conv Match_rewritePrefix)
  moreover have "length (filter (\<lambda>e. ExactPath (Match e) = x)
                   (map snd (rangeOrder ce (exactFinal cp es)))) = 1"
  proof -
    have "distinct (map fst (exactFinal cp es))"
      using inv by (simp add: exactInv_def)
    moreover have "\<forall>(k, e) \<in> set (exactFinal cp es). ExactPath (Match e) = k"
      using exactInv_entry [OF inv] by blast
    ultimately have "length (filter (\<lambda>e. ExactPath (Match e) = x)
                       (map snd (exactFinal cp es))) = 1"
      using key by (rule count_by_key)
    then show ?thesis by (simp only: length_filter_rangeOrder)
  qed
  ultimately show ?thesis by (simp add: appended_def)
qed

lemma appended_prefix_shape:
  assumes kinds: "\<forall>e \<in> set es. ExactPath (Match e) = [] \<or> PrefixPath (Match e) = []"
    and e: "e \<in> set (appended cp ce es)" "PrefixPath (Match e) \<noteq> []"
  shows "endsInOneSeparator (PrefixPath (Match e))"
  using e(1)
proof (cases rule: appended_cases)
  case other
  with e(2) show ?thesis by (simp add: isOther_def)
next
  case (prefix d)
  then show ?thesis by (simp add: Match_rewritePrefix endsInOneSeparator_rewritten)
next
  case (exact k)
  with exactInv_entry [OF exactInv_exactFinal [OF kinds]] e(2) show ?thesis by blast
qed

lemma appended_others:
  assumes kinds: "\<forall>e \<in> set es. ExactPath (Match e) = [] \<or> PrefixPath (Match e) = []"
  shows "filter isOther (appended cp ce es) = filter isOther es"
proof -
  have "filter isOther (map rewritePrefix (prefixPass cp es)) = []"
    by (auto simp: filter_empty_conv isOther_def Match_rewritePrefix)
  moreover have "filter isOther (map snd (rangeOrder ce (exactFinal cp es))) = []"
    using exactInv_entry [OF exactInv_exactFinal [OF kinds]]
    by (fastforce simp: filter_empty_conv isOther_def set_rangeOrder)
  ultimately show ?thesis by (simp add: appended_def)
qed

lemma appended_root_prefix:
  assumes "d \<in> set es" "ExactPath (Match d) = []" "PrefixPath (Match d) \<noteq> []"
    "TrimRight (PrefixPath (Match d)) ''/'' = []"
  shows "\<exists>e \<in> set (appended cp ce es). PrefixPath (Match e) = ''/''"
proof -
  from assms obtain e where e: "e \<in> set (prefixPass cp es)"
      "PrefixPath (Match e) = PrefixPath (Match d)"
    using prefixPass_has by blast
  then have "rewritePrefix e \<in> set (appended cp ce es)" by (simp add: appended_def)
  moreover from e assms(4) have "PrefixPath (Match (rewritePrefix e)) = ''/''"
    by (simp add: Match_rewritePrefix)
  ultimately show ?thesis by blast
qed

lemma appended_has_prefix:
  assumes "d \<in> set es" "ExactPath (Match d) = []" "PrefixPath (Match d) \<noteq> []"
  shows "\<exists>e \<in> set (appended cp ce es).
           PrefixPath (Match e) = TrimRight (PrefixPath (Match d)) ''/'' @ ''/''"
proof -
  from assms obtain e where e: "e \<in> set (prefixPass cp es)"
      "PrefixPath (Match e) = PrefixPath (Match d)"
    using prefixPass_has by blast
  then have "rewritePrefix e \<in> set (appended cp ce es)" by (simp add: appended_def)
  moreover from e have "PrefixPath (Match (rewritePrefix e)) =
      TrimRight (PrefixPath (Match d)) ''/'' @ ''/''"
    by (simp add: Match_rewritePrefix)
  ultimately show ?thesis by blast
qed

lemma concat_map_split:
  "x \<in> set xs \<Longrightarrow> \<exists>pre post. concat (map f xs) = pre @ f x @ post"
proof -
  assume "x \<in> set xs"
  then obtain as bs where "xs = as @ x # bs" by (auto dest: split_list)
  then have "concat (map f xs) = concat (map f as) @ f x @ concat (map f bs)" by simp
  then show ?thesis by blast
qed

lemma denormalize_split:
  assumes "route \<in> set A" "rule \<in> set (GetRules (confHttp route))"
  shows "\<exists>pre post. denormalize A = pre @ ruleEntries rule @ post"
proof -
  from concat_map_split [OF assms(1)] obtain p1 s1 where
    1: "denormalize A = p1 @ concat (map ruleEntries (GetRules (confHttp route))) @ s1"
    unfolding denormalize_def by blast
  from concat_map_split [OF assms(2)] obtain p2 s2 where
    2: "concat (map ruleEntries (GetRules (confHttp route))) = p2 @ ruleEntries rule @ s2"
    by blast
  have "denormalize A = (p1 @ p2) @ ruleEntries rule @ (s2 @ s1)"
    by (simp add: 1 2)
  then show ?thesis by blast
qed

subsection \<open>The scenarios, evaluated\<close>

lemmas scenario_defs =
  hostWith_def routeWith_def pathMatchOf_def headerMatchOf_def methodMatchOf_def
  accepted_def acceptRoute_def WildcardHostname_def GetHostnames_def GetRules_def
  denormalize_def ruleEntries_def makeRouteEntry_def makeRouteMatch_def setPath_def
  zeroEntry_def zeroMatch_def addBackend_def addHeader_def Pair_def Let_def

lemmas pass_defs =
  appended_def prefixPass_def exactFinal_def isOther_def fileExact_def filePrefix_def
  synthExact_def rangeOrder_singleton rangeOrder_Nil rewritePrefix_def setPrefixPath_def
  TrimRight_def entryView_def

text \<open>
  Scenario A: one Prefix entry \<open>/foo/\<close> with the action of the first route, and one Exact
  entry \<open>/foo\<close>, the one of the second route; whatever the order of the ranges.
\<close>

lemma scenarioA_produced:
  "map entryView (produced mh cp ce scenarioA) =
     [([], ''/foo/'', [], [], [1]), (''/foo'', [], [], [], [2])]"
  by (simp add: produced_eq scenarioA_def scenario_defs pass_defs)

lemma scenarioA_accepted:
  "accepted mh scenarioA =
     [routeWith [] [pathMatchOf Path_PREFIX ''/foo''] 1,
      routeWith [] [pathMatchOf Path_EXACT ''/foo''] 2]"
  by (simp add: scenarioA_def hostWith_def accepted_def acceptRoute_def WildcardHostname_def)

text \<open>Scenario B: two separate entries, each with the one forward target of the rule.\<close>

lemma scenarioB_produced:
  "map entryView (produced mh cp ce scenarioB) =
     [([], [], [], [\<lparr>Key = ''X'', Val = ''1''\<rparr>], [1]), ([], [], ''GET'', [], [1])]"
  by (simp add: produced_eq scenarioB_def scenario_defs pass_defs)

lemma scenarioB_accepted:
  "accepted mh scenarioB = [routeWith [] [headerMatchOf ''X'' ''1'', methodMatchOf Match_GET] 1]"
  by (simp add: scenarioB_def hostWith_def accepted_def acceptRoute_def WildcardHostname_def)

lemma scenarioRoot_produced:
  "map entryView (produced mh cp ce scenarioRoot) = [([], ''/'', [], [], [1])]"
  by (simp add: produced_eq scenarioRoot_def scenario_defs pass_defs)

lemma scenarioRoot_accepted:
  "accepted mh scenarioRoot = [routeWith [] [pathMatchOf Path_PREFIX ''/''] 1]"
  by (simp add: scenarioRoot_def hostWith_def accepted_def acceptRoute_def WildcardHostname_def)

lemma scenarioSlashes_produced:
  "map entryView (produced mh cp ce scenarioSlashes) =
     [([], ''/foo/'', [], [], [1]), (''/foo'', [], [], [], [1])]"
  by (simp add: produced_eq scenarioSlashes_def scenario_defs pass_defs)

lemma scenarioSlashes_accepted:
  "accepted mh scenarioSlashes = [routeWith [] [pathMatchOf Path_PREFIX ''/foo///''] 1]"
  by (simp add: scenarioSlashes_def hostWith_def accepted_def acceptRoute_def
      WildcardHostname_def)

subsection \<open>The claims\<close>

lemma produced_kinds:
  "\<forall>e \<in> set (denormalize A). ExactPath (Match e) = [] \<or> PrefixPath (Match e) = []"
  using denormalize_one_kind by blast

lemma prefix_rule_entry:
  assumes "route \<in> set A" "rule \<in> set (GetRules (confHttp route))" "m \<in> set (GetMatches rule)"
    "GetPath m = Some \<lparr>pathMatch = Path_PREFIX, pathValue = p\<rparr>"
  shows "\<exists>d \<in> set (denormalize A). ExactPath (Match d) = [] \<and> PrefixPath (Match d) = p"
proof -
  have "(makeRouteEntry rule)\<lparr>Match := makeRouteMatch m\<rparr> \<in> set (denormalize A)"
    using assms(1-3) by (rule in_denormalize)
  moreover have "ExactPath (makeRouteMatch m) = [] \<and> PrefixPath (makeRouteMatch m) = p"
    using assms(4) by (rule makeRouteMatch_prefix)
  ultimately show ?thesis by force
qed

text \<open>
  C3. For an accepted prefix rule whose path \<open>p\<close> strips to a non-root path \<open>x\<close>, the
  entries one call appends hold exactly one entry with the exact path \<open>x\<close>, whatever the
  order of the ranges over the two maps. In Scenario A the appended entries are one
  Prefix entry \<open>/foo/\<close> and one Exact entry \<open>/foo\<close>.
\<close>

theorem exact_entry_unique:
  assumes "route \<in> set (accepted mh info)"
    and "rule \<in> set (GetRules (confHttp route))"
    and "m \<in> set (GetMatches rule)"
    and "GetPath m = Some \<lparr>pathMatch = Path_PREFIX, pathValue = p\<rparr>"
    and "TrimRight p ''/'' \<noteq> []"
  shows "length (filter (\<lambda>e. ExactPath (Match e) = TrimRight p ''/'')
                  (produced mh cp ce info)) = 1 \<and>
         map entryView (produced mh cp ce scenarioA) =
           [([], ''/foo/'', [], [], [1]), (''/foo'', [], [], [], [2])]"
proof -
  from prefix_rule_entry [OF assms(1-4)] obtain d where
    d: "d \<in> set (denormalize (accepted mh info))" "ExactPath (Match d) = []"
       "PrefixPath (Match d) = p"
    by blast
  have "length (filter (\<lambda>e. ExactPath (Match e) = TrimRight p ''/'')
          (appended cp ce (denormalize (accepted mh info)))) = 1"
    using produced_kinds d(1,2)
  proof (rule appended_exact_count)
    show "TrimRight (PrefixPath (Match d)) ''/'' = TrimRight p ''/''" using d(3) by simp
    show "TrimRight p ''/'' \<noteq> []" by (rule assms(5))
  qed
  then show ?thesis by (simp add: produced_eq [symmetric] scenarioA_produced)
qed

theorem exact_entry_unique_witness:
  "length (filter (\<lambda>e. ExactPath (Match e) = ''/foo'')
            (produced (\<lambda>h ns. h \<in> set ns) [] [] scenarioA)) = 1"
  using exact_entry_unique
          [where mh = "\<lambda>h ns. h \<in> set ns" and info = scenarioA
             and route = "routeWith [] [pathMatchOf Path_PREFIX ''/foo''] 1"
             and rule = "\<lparr>GetMatches = [pathMatchOf Path_PREFIX ''/foo''], GetFilters = [],
                          GetBackends = [\<lparr>GetWeight = 1, GetDestination = Map.empty\<rparr>]\<rparr>"
             and m = "pathMatchOf Path_PREFIX ''/foo''" and p = "''/foo''"
             and cp = "[]" and ce = "[]"]
  by (simp add: scenarioA_accepted routeWith_def GetRules_def pathMatchOf_def TrimRight_def)

text \<open>
  C4. Every entry one call appends that has a prefix path has one that ends in exactly
  one separator; and each accepted prefix rule with path \<open>p\<close> has an appended entry
  whose prefix path is \<open>p\<close> without its trailing separators, followed by one separator.
\<close>

theorem prefix_entries_one_separator:
  "(\<forall>e \<in> set (produced mh cp ce info).
      PrefixPath (Match e) \<noteq> [] \<longrightarrow> endsInOneSeparator (PrefixPath (Match e))) \<and>
   (\<forall>route \<in> set (accepted mh info). \<forall>rule \<in> set (GetRules (confHttp route)).
      \<forall>m \<in> set (GetMatches rule). \<forall>p.
        GetPath m = Some \<lparr>pathMatch = Path_PREFIX, pathValue = p\<rparr> \<and> p \<noteq> [] \<longrightarrow>
        (\<exists>e \<in> set (produced mh cp ce info).
           PrefixPath (Match e) = TrimRight p ''/'' @ ''/''))"
proof (intro conjI ballI allI impI)
  fix e assume e: "e \<in> set (produced mh cp ce info)" "PrefixPath (Match e) \<noteq> []"
  from e(1) have "e \<in> set (appended cp ce (denormalize (accepted mh info)))"
    by (simp add: produced_eq)
  from appended_prefix_shape [OF produced_kinds this e(2)]
  show "endsInOneSeparator (PrefixPath (Match e))" .
next
  fix route rule m p
  assume r: "route \<in> set (accepted mh info)" "rule \<in> set (GetRules (confHttp route))"
      "m \<in> set (GetMatches rule)"
    and p: "GetPath m = Some \<lparr>pathMatch = Path_PREFIX, pathValue = p\<rparr> \<and> p \<noteq> []"
  from p have "GetPath m = Some \<lparr>pathMatch = Path_PREFIX, pathValue = p\<rparr>" by simp
  from prefix_rule_entry [OF r this] obtain d where
    d: "d \<in> set (denormalize (accepted mh info))" "ExactPath (Match d) = []"
       "PrefixPath (Match d) = p"
    by blast
  with p have "PrefixPath (Match d) \<noteq> []" by simp
  from appended_has_prefix [OF d(1,2) this] d(3)
  show "\<exists>e \<in> set (produced mh cp ce info). PrefixPath (Match e) = TrimRight p ''/'' @ ''/''"
    by (simp add: produced_eq)
qed

theorem prefix_entries_one_separator_witness:
  "endsInOneSeparator ''/foo/'' \<and>
   (\<exists>e \<in> set (produced (\<lambda>h ns. h \<in> set ns) [] [] scenarioSlashes).
      PrefixPath (Match e) = ''/foo/'')"
proof -
  have v: "map entryView (produced (\<lambda>h ns. h \<in> set ns) [] [] scenarioSlashes) =
             [([], ''/foo/'', [], [], [1]), (''/foo'', [], [], [], [1])]"
    by (rule scenarioSlashes_produced)
  have "map (\<lambda>e. PrefixPath (Match e)) (produced (\<lambda>h ns. h \<in> set ns) [] [] scenarioSlashes) =
          map (fst \<circ> snd) (map entryView (produced (\<lambda>h ns. h \<in> set ns) [] [] scenarioSlashes))"
    by (simp add: entryView_def comp_def)
  with v have "map (\<lambda>e. PrefixPath (Match e))
                 (produced (\<lambda>h ns. h \<in> set ns) [] [] scenarioSlashes) = [''/foo/'', []]"
    by simp
  then have "''/foo/'' \<in> set (map (\<lambda>e. PrefixPath (Match e))
                (produced (\<lambda>h ns. h \<in> set ns) [] [] scenarioSlashes))"
    by (simp only: list.set_intros(1))
  then have "''/foo/'' \<in> (\<lambda>e. PrefixPath (Match e)) `
                set (produced (\<lambda>h ns. h \<in> set ns) [] [] scenarioSlashes)"
    by (simp only: set_map)
  then obtain e where e: "e \<in> set (produced (\<lambda>h ns. h \<in> set ns) [] [] scenarioSlashes)"
      "PrefixPath (Match e) = ''/foo/''"
    by (rule imageE) simp
  from prefix_entries_one_separator
         [of "\<lambda>h ns. h \<in> set ns" "[]" "[]" scenarioSlashes, THEN conjunct1, rule_format,
          OF e(1)] e(2)
  have "endsInOneSeparator ''/foo/''" by simp
  with e show ?thesis by blast
qed

text \<open>
  C6. A call always returns the pair of a nil resource set and a nil error, which is not
  a resource set at all, empty or not. When no route is accepted for the host, when the
  accepted routes denormalize to no entry, and whenever the call appends no entry, this
  is all that happens: the route table is left as it was.
\<close>

theorem nothing_applicable_signal:
  "fst (GenerateHost mh cp ce info) = (None, None) \<and>
   (\<forall>rs. fst (fst (GenerateHost mh cp ce info)) \<noteq> Some rs) \<and>
   (accepted mh info = [] \<longrightarrow> GenerateHost mh cp ce info = ((None, None), info)) \<and>
   (denormalize (accepted mh info) = [] \<longrightarrow>
      GenerateHost mh cp ce info = ((None, None), info)) \<and>
   (produced mh cp ce info = [] \<longrightarrow> GenerateHost mh cp ce info = ((None, None), info))"
proof -
  have same: "GenerateHost mh cp ce info = ((None, None), info)"
    if "produced mh cp ce info = []"
    using that by (simp add: GenerateHost_eq produced_eq)
  have none: "produced mh cp ce info = []" if "denormalize (accepted mh info) = []"
    using that by (simp add: produced_eq appended_Nil)
  have den: "denormalize (accepted mh info) = []" if "accepted mh info = []"
    using that by (simp add: denormalize_def)
  have ret: "fst (GenerateHost mh cp ce info) = (None, None)"
    by (simp add: GenerateHost_eq)
  then have "\<forall>rs. fst (fst (GenerateHost mh cp ce info)) \<noteq> Some rs" by simp
  with ret same none den show ?thesis by blast
qed

theorem nothing_applicable_signal_witness:
  "GenerateHost (\<lambda>h ns. h \<in> set ns) [] [] scenarioNoRoutes = ((None, None), scenarioNoRoutes) \<and>
   GenerateHost (\<lambda>h ns. h \<in> set ns) [] [] scenarioNoRules = ((None, None), scenarioNoRules)"
proof -
  have "accepted (\<lambda>h ns. h \<in> set ns) scenarioNoRoutes = []"
    by (simp add: scenarioNoRoutes_def hostWith_def accepted_def)
  moreover have "denormalize (accepted (\<lambda>h ns. h \<in> set ns) scenarioNoRules) = []"
    by (simp add: scenarioNoRules_def hostWith_def accepted_def acceptRoute_def GetHostnames_def
        GetRules_def denormalize_def)
  ultimately show ?thesis
    using nothing_applicable_signal [of "\<lambda>h ns. h \<in> set ns" "[]" "[]" scenarioNoRoutes]
      nothing_applicable_signal [of "\<lambda>h ns. h \<in> set ns" "[]" "[]" scenarioNoRules]
    by simp
qed

lemma prefixPass_from:
  assumes "e \<in> set (prefixPass cp es)"
  shows "\<exists>d \<in> set es. ExactPath (Match d) = [] \<and> PrefixPath (Match d) = PrefixPath (Match e)"
proof -
  have inv: "prefixInv (foldl filePrefix [] es)"
    by (intro prefixInv_foldl_filePrefix prefixInv_Nil)
  from assms obtain k where k: "(k, e) \<in> set (foldl filePrefix [] es)"
    by (auto simp: prefixPass_def set_rangeOrder)
  then have "k \<in> fst ` set (foldl filePrefix [] es)" by force
  then have "k \<in> {PrefixPath (Match d) |d.
                    d \<in> set es \<and> ExactPath (Match d) = [] \<and> PrefixPath (Match d) \<noteq> []}"
    unfolding keys_foldl_filePrefix by simp
  moreover from prefixInv_entry [OF inv k] have "PrefixPath (Match e) = k" by simp
  ultimately show ?thesis by auto
qed

lemma appended_prefix_no_exact:
  assumes kinds: "\<forall>e \<in> set es. ExactPath (Match e) = [] \<or> PrefixPath (Match e) = []"
    and e: "e \<in> set (appended cp ce es)" "PrefixPath (Match e) \<noteq> []"
  shows "ExactPath (Match e) = []"
  using e(1)
proof (cases rule: appended_cases)
  case other
  then show ?thesis by (simp add: isOther_def)
next
  case (prefix d)
  with prefixPass_entry [of d cp es] show ?thesis by (simp add: Match_rewritePrefix)
next
  case (exact k)
  with exactInv_entry [OF exactInv_exactFinal [OF kinds]] e(2) show ?thesis by blast
qed

lemma appended_exact_origin:
  assumes kinds: "\<forall>e \<in> set es. ExactPath (Match e) = [] \<or> PrefixPath (Match e) = []"
    and e: "e \<in> set (appended cp ce es)" "ExactPath (Match e) \<noteq> []"
  shows "\<exists>d \<in> set es.
           ExactPath (Match d) = ExactPath (Match e) \<or>
           (ExactPath (Match d) = [] \<and>
            TrimRight (PrefixPath (Match d)) ''/'' = ExactPath (Match e))"
  using e(1)
proof (cases rule: appended_cases)
  case other
  with e(2) show ?thesis by (simp add: isOther_def)
next
  case (prefix d)
  with prefixPass_entry [of d cp es] e(2) show ?thesis by (simp add: Match_rewritePrefix)
next
  case (exact k)
  from exactInv_entry [OF exactInv_exactFinal [OF kinds] exact]
  have k: "ExactPath (Match e) = k" by simp
  from exact have "k \<in> fst ` set (exactFinal cp es)" by force
  then consider
      (filed) "k \<in> {ExactPath (Match d) |d. d \<in> set es \<and> ExactPath (Match d) \<noteq> []}"
    | (synth) "k \<in> {TrimRight (PrefixPath (Match d)) ''/'' |d. d \<in> set (prefixPass cp es)}"
    unfolding exactFinal_def keys_foldl_synthExact keys_foldl_fileExact by auto
  then show ?thesis
  proof cases
    case filed
    with k show ?thesis by auto
  next
    case synth
    then obtain d' where d': "d' \<in> set (prefixPass cp es)"
        "TrimRight (PrefixPath (Match d')) ''/'' = k"
      by auto
    from prefixPass_from [OF d'(1)] obtain d where
      "d \<in> set es" "ExactPath (Match d) = []" "PrefixPath (Match d) = PrefixPath (Match d')"
      by blast
    with d'(2) k show ?thesis by auto
  qed
qed

lemma expandPrefix_root:
  assumes "TrimRight (PrefixPath (Match e)) ''/'' = []"
  shows "expandPrefix (tbl, ex) e = (tbl @ [setPrefixPath e ''/''], ex)"
  using assms by (simp add: expandPrefix_def setPrefixPath_def Let_def)

text \<open>
  C7. For an accepted prefix rule whose path strips to the root alone, the step of the
  prefix loop appends the entry rewritten to the prefix \<open>/\<close> and leaves the exact
  accumulator as it is. So the appended entries hold a Prefix entry \<open>/\<close>; the entries
  with neither an exact nor a prefix path are the directly appended ones, none is
  synthesized; and every appended entry with an exact path sits at the exact path of a
  rule or at the non-empty stripped path of a prefix rule.
\<close>

theorem root_prefix_no_exact_duplicate:
  assumes "route \<in> set (accepted mh info)"
    and "rule \<in> set (GetRules (confHttp route))"
    and "m \<in> set (GetMatches rule)"
    and "GetPath m = Some \<lparr>pathMatch = Path_PREFIX, pathValue = p\<rparr>"
    and "p \<noteq> []"
    and "TrimRight p ''/'' = []"
  shows "expandPrefix (tbl, ex) ((makeRouteEntry rule)\<lparr>Match := makeRouteMatch m\<rparr>) =
           (tbl @ [setPrefixPath ((makeRouteEntry rule)\<lparr>Match := makeRouteMatch m\<rparr>) ''/''], ex) \<and>
         (\<exists>e \<in> set (produced mh cp ce info).
            PrefixPath (Match e) = ''/'' \<and> ExactPath (Match e) = []) \<and>
         filter isOther (produced mh cp ce info) =
           filter isOther (denormalize (accepted mh info)) \<and>
         (\<forall>e \<in> set (produced mh cp ce info). ExactPath (Match e) \<noteq> [] \<longrightarrow>
            (\<exists>d \<in> set (denormalize (accepted mh info)).
               ExactPath (Match d) = ExactPath (Match e) \<or>
               (ExactPath (Match d) = [] \<and>
                TrimRight (PrefixPath (Match d)) ''/'' = ExactPath (Match e))))"
proof (intro conjI)
  have "PrefixPath (makeRouteMatch m) = p"
    using makeRouteMatch_prefix [OF assms(4)] by simp
  with assms(6)
  show "expandPrefix (tbl, ex) ((makeRouteEntry rule)\<lparr>Match := makeRouteMatch m\<rparr>) =
          (tbl @ [setPrefixPath ((makeRouteEntry rule)\<lparr>Match := makeRouteMatch m\<rparr>) ''/''], ex)"
    by (simp add: expandPrefix_root)
next
  from prefix_rule_entry [OF assms(1-4)] obtain d where
    d: "d \<in> set (denormalize (accepted mh info))" "ExactPath (Match d) = []"
       "PrefixPath (Match d) = p"
    by blast
  with assms(5,6) have "PrefixPath (Match d) \<noteq> []" "TrimRight (PrefixPath (Match d)) ''/'' = []"
    by simp_all
  from appended_root_prefix [OF d(1,2) this] obtain e where
    e: "e \<in> set (appended cp ce (denormalize (accepted mh info)))" "PrefixPath (Match e) = ''/''"
    by blast
  then have "PrefixPath (Match e) \<noteq> []" by simp
  from appended_prefix_no_exact [OF produced_kinds e(1) this] e
  show "\<exists>e \<in> set (produced mh cp ce info). PrefixPath (Match e) = ''/'' \<and> ExactPath (Match e) = []"
    unfolding produced_eq by blast
next
  show "filter isOther (produced mh cp ce info) = filter isOther (denormalize (accepted mh info))"
    unfolding produced_eq using produced_kinds by (rule appended_others)
next
  show "\<forall>e \<in> set (produced mh cp ce info). ExactPath (Match e) \<noteq> [] \<longrightarrow>
          (\<exists>d \<in> set (denormalize (accepted mh info)).
             ExactPath (Match d) = ExactPath (Match e) \<or>
             (ExactPath (Match d) = [] \<and>
              TrimRight (PrefixPath (Match d)) ''/'' = ExactPath (Match e)))"
    unfolding produced_eq using appended_exact_origin [OF produced_kinds] by blast
qed

theorem root_prefix_no_exact_duplicate_witness:
  "(\<exists>e \<in> set (produced (\<lambda>h ns. h \<in> set ns) [] [] scenarioRoot).
      PrefixPath (Match e) = ''/'' \<and> ExactPath (Match e) = []) \<and>
   filter isOther (produced (\<lambda>h ns. h \<in> set ns) [] [] scenarioRoot) = [] \<and>
   filter (\<lambda>e. ExactPath (Match e) \<noteq> []) (produced (\<lambda>h ns. h \<in> set ns) [] [] scenarioRoot) = []"
proof -
  have den: "map entryView (denormalize (accepted (\<lambda>h ns. h \<in> set ns) scenarioRoot)) =
               [([], ''/'', [], [], [1])]"
    by (simp add: scenarioRoot_def scenario_defs entryView_def)
  then have paths: "\<forall>d \<in> set (denormalize (accepted (\<lambda>h ns. h \<in> set ns) scenarioRoot)).
                      ExactPath (Match d) = [] \<and> PrefixPath (Match d) = ''/''"
    by (auto simp: entryView_def map_eq_Cons_conv)
  then have others: "filter isOther (denormalize (accepted (\<lambda>h ns. h \<in> set ns) scenarioRoot)) = []"
    by (auto simp: filter_empty_conv isOther_def)
  have strip: "TrimRight ''/'' ''/'' = []" by (simp add: TrimRight_def)
  note t = root_prefix_no_exact_duplicate
             [where mh = "\<lambda>h ns. h \<in> set ns" and info = scenarioRoot
                and route = "routeWith [] [pathMatchOf Path_PREFIX ''/''] 1"
                and rule = "\<lparr>GetMatches = [pathMatchOf Path_PREFIX ''/''], GetFilters = [],
                             GetBackends = [\<lparr>GetWeight = 1, GetDestination = Map.empty\<rparr>]\<rparr>"
                and m = "pathMatchOf Path_PREFIX ''/''" and p = "''/''"
                and cp = "[]" and ce = "[]" and tbl = "[]" and ex = "[]"]
  have t': "(\<exists>e \<in> set (produced (\<lambda>h ns. h \<in> set ns) [] [] scenarioRoot).
              PrefixPath (Match e) = ''/'' \<and> ExactPath (Match e) = []) \<and>
           filter isOther (produced (\<lambda>h ns. h \<in> set ns) [] [] scenarioRoot) =
             filter isOther (denormalize (accepted (\<lambda>h ns. h \<in> set ns) scenarioRoot)) \<and>
           (\<forall>e \<in> set (produced (\<lambda>h ns. h \<in> set ns) [] [] scenarioRoot). ExactPath (Match e) \<noteq> [] \<longrightarrow>
              (\<exists>d \<in> set (denormalize (accepted (\<lambda>h ns. h \<in> set ns) scenarioRoot)).
                 ExactPath (Match d) = ExactPath (Match e) \<or>
                 (ExactPath (Match d) = [] \<and>
                  TrimRight (PrefixPath (Match d)) ''/'' = ExactPath (Match e))))"
    using t by (simp add: scenarioRoot_accepted routeWith_def GetRules_def pathMatchOf_def strip)
  have "\<forall>e \<in> set (produced (\<lambda>h ns. h \<in> set ns) [] [] scenarioRoot). ExactPath (Match e) = []"
  proof (rule ballI, rule ccontr)
    fix e assume e: "e \<in> set (produced (\<lambda>h ns. h \<in> set ns) [] [] scenarioRoot)"
      and ne: "ExactPath (Match e) \<noteq> []"
    with t' obtain d where "d \<in> set (denormalize (accepted (\<lambda>h ns. h \<in> set ns) scenarioRoot))"
      "ExactPath (Match d) = ExactPath (Match e) \<or>
       (ExactPath (Match d) = [] \<and> TrimRight (PrefixPath (Match d)) ''/'' = ExactPath (Match e))"
      by blast
    with paths ne strip show False by auto
  qed
  then have "filter (\<lambda>e. ExactPath (Match e) \<noteq> [])
               (produced (\<lambda>h ns. h \<in> set ns) [] [] scenarioRoot) = []"
    by (simp add: filter_empty_conv)
  with t' others show ?thesis by simp
qed

lemma foldl_fileExact_others: "\<forall>e \<in> set es. isOther e \<Longrightarrow> foldl fileExact ex es = ex"
  by (induction es) (simp_all add: fileExact_def isOther_def)

lemma foldl_filePrefix_others: "\<forall>e \<in> set es. isOther e \<Longrightarrow> foldl filePrefix pr es = pr"
  by (induction es) (simp_all add: filePrefix_def isOther_def)

lemma filter_all: "\<forall>e \<in> set es. P e \<Longrightarrow> filter P es = es"
  by (induction es) simp_all

text \<open>
  C8. For a rule whose match alternatives all have neither an exact nor a prefix path,
  the first loop appends one entry per alternative directly to the route table, in the
  order of the alternatives, each the rule's one entry (action, redirect, mirror and
  header mutations) with the match of its alternative, and leaves both accumulators as
  they are. When the rule belongs to an accepted route, these entries are a contiguous
  run of the entries the call appends.
\<close>

theorem other_alternatives_appended:
  assumes "\<forall>m \<in> set (GetMatches rule).
             ExactPath (makeRouteMatch m) = [] \<and> PrefixPath (makeRouteMatch m) = []"
  shows "addRule (tbl, ex, pr) rule =
           (tbl @ map (\<lambda>m. (makeRouteEntry rule)\<lparr>Match := makeRouteMatch m\<rparr>) (GetMatches rule),
            ex, pr) \<and>
         (route \<in> set (accepted mh info) \<and> rule \<in> set (GetRules (confHttp route)) \<longrightarrow>
            sublist (map (\<lambda>m. (makeRouteEntry rule)\<lparr>Match := makeRouteMatch m\<rparr>) (GetMatches rule))
              (produced mh cp ce info))"
proof -
  have others: "\<forall>e \<in> set (ruleEntries rule). isOther e"
    using assms by (auto simp: ruleEntries_def isOther_def)
  have 1: "addRule (tbl, ex, pr) rule = (tbl @ ruleEntries rule, ex, pr)"
    by (simp add: addRule_fileEntry foldl_fileEntry filter_all [OF others]
        foldl_fileExact_others [OF others] foldl_filePrefix_others [OF others])
  have 2: "sublist (ruleEntries rule) (produced mh cp ce info)"
    if "route \<in> set (accepted mh info)" "rule \<in> set (GetRules (confHttp route))"
  proof -
    from denormalize_split [OF that] obtain pre post where
      "denormalize (accepted mh info) = pre @ ruleEntries rule @ post"
      by blast
    then have "produced mh cp ce info =
        filter isOther pre @ ruleEntries rule @
        (filter isOther post @
         map rewritePrefix (prefixPass cp (denormalize (accepted mh info))) @
         map snd (rangeOrder ce (exactFinal cp (denormalize (accepted mh info)))))"
      unfolding produced_eq appended_def by (simp add: filter_all [OF others])
    then show ?thesis unfolding sublist_def by blast
  qed
  from 1 2 show ?thesis unfolding ruleEntries_def by blast
qed

theorem other_alternatives_appended_witness:
  "sublist
     (map (\<lambda>m. (makeRouteEntry
                  \<lparr>GetMatches = [headerMatchOf ''X'' ''1'', methodMatchOf Match_GET],
                   GetFilters = [],
                   GetBackends = [\<lparr>GetWeight = 1, GetDestination = Map.empty\<rparr>]\<rparr>)
                \<lparr>Match := makeRouteMatch m\<rparr>)
          [headerMatchOf ''X'' ''1'', methodMatchOf Match_GET])
     (produced (\<lambda>h ns. h \<in> set ns) [] [] scenarioB) \<and>
   map entryView (produced (\<lambda>h ns. h \<in> set ns) [] [] scenarioB) =
     [([], [], [], [\<lparr>Key = ''X'', Val = ''1''\<rparr>], [1]), ([], [], ''GET'', [], [1])]"
proof -
  have kinds: "\<forall>m \<in> set [headerMatchOf ''X'' ''1'', methodMatchOf Match_GET].
                 ExactPath (makeRouteMatch m) = [] \<and> PrefixPath (makeRouteMatch m) = []"
    by (simp add: ExactPath_makeRouteMatch PrefixPath_makeRouteMatch headerMatchOf_def
        methodMatchOf_def setPath_def zeroMatch_def)
  show ?thesis
    using other_alternatives_appended
            [where rule = "\<lparr>GetMatches = [headerMatchOf ''X'' ''1'', methodMatchOf Match_GET],
                            GetFilters = [],
                            GetBackends = [\<lparr>GetWeight = 1, GetDestination = Map.empty\<rparr>]\<rparr>"
               and route = "routeWith [] [headerMatchOf ''X'' ''1'', methodMatchOf Match_GET] 1"
               and mh = "\<lambda>h ns. h \<in> set ns" and info = scenarioB and cp = "[]" and ce = "[]"
               and tbl = "[]" and ex = "[]" and pr = "[]"]
      kinds
    by (simp add: scenarioB_accepted scenarioB_produced routeWith_def GetRules_def)
qed

end
